theory Spec2Isabelle
  imports Complex_Main "HOL-Library.Word"
begin

unbundle bit_operations_syntax

section \<open>Data model of \<^verbatim>\<open>testbench.py\<close>\<close>

text \<open>
  The embedding follows class \<^verbatim>\<open>ThrusterGUI\<close> of \<^verbatim>\<open>src/TestBenchGUI/testbench.py\<close>.
  Python integers are \<^typ>\<open>int\<close>, octets of a \<^verbatim>\<open>bytearray\<close> are \<^typ>\<open>8 word\<close>.
  Waypoint times and sampled values are doubles in the program: binary64 values and
  their rounding are modelled in the section on binary64 arithmetic below.
  An exception is a value of \<open>error\<close>; a method that mutates \<^verbatim>\<open>self\<close> returns the
  raised error, if any, together with the state at the moment it returns or raises.
\<close>

type_synonym byte = "8 word"

datatype error =
    ValueError
  | ConnectionError
  | AttributeError
  | KeyError
  | StructError
  | PortNotOpenError
  | UnboundLocalError
  | ZeroDivisionError
  | OverflowError
  | LibraryError

subsection \<open>Binary64 arithmetic\<close>

text \<open>
  A Python \<^verbatim>\<open>float\<close> is a binary64 value: a finite one is the rational it denotes, and
  there are the two infinities and NaN. The sign of zero is not kept. Waypoint times
  are finite doubles.
\<close>

datatype pyfloat = Finite rat | PosInf | NegInf | NaN

definition pow2 :: "int \<Rightarrow> rat" where
  "pow2 e = (if 0 \<le> e then 2 ^ nat e else 1 / 2 ^ nat (- e))"

text \<open>The number of binary digits of a positive integer.\<close>

function bit_length :: "int \<Rightarrow> int" where
  "bit_length n = (if n \<le> 0 then 0 else 1 + bit_length (n div 2))"
  by pat_completeness auto
termination
  by (relation "measure nat") auto

declare bit_length.simps [simp del]

text \<open>The exponent of the binade of a positive rational: \<open>2 ^ e \<le> x < 2 ^ (e + 1)\<close>.\<close>

definition binade :: "rat \<Rightarrow> int" where
  "binade x =
     (let (p, q) = quotient_of x;
          d = bit_length p - bit_length q
      in if pow2 d \<le> x then d else d - 1)"

text \<open>
  Rounding half to even, as Python's \<^verbatim>\<open>round(x)\<close> does and as the significand of a
  binary64 result is rounded.
\<close>

definition py_round :: "rat \<Rightarrow> int" where
  "py_round x =
     (let f = \<lfloor>x\<rfloor>; d = x - of_int f in
      if d < 1 / 2 then f else if 1 / 2 < d then f + 1 else if even f then f else f + 1)"

text \<open>
  The binary64 value nearest to a rational, ties to even, with 53 significant bits
  and the smallest spacing \<open>2 ^ -1074\<close>, before the range check.
\<close>

definition round64 :: "rat \<Rightarrow> rat" where
  "round64 x =
     (if x = 0 then 0
      else let e = max (binade \<bar>x\<bar> - 52) (- 1074)
           in of_int (py_round (x / pow2 e)) * pow2 e)"

text \<open>
  The result of an arithmetic operation whose exact value is \<open>x\<close>: an infinity when
  the rounded magnitude reaches \<open>2 ^ 1024\<close>.
\<close>

definition float64 :: "rat \<Rightarrow> pyfloat" where
  "float64 x =
     (let y = round64 x in
      if y = 0 then Finite 0
      else if 1024 \<le> binade \<bar>y\<bar> then (if 0 < y then PosInf else NegInf)
      else Finite y)"

subsection \<open>The window's state\<close>

text \<open>
  The fields of \<^verbatim>\<open>ThrusterGUI.__init__\<close> that the methods below read or write.
  \<open>serial_conn\<close> is \<open>None\<close> or a port object with its \<^verbatim>\<open>is_open\<close> flag;
  \<open>max_time\<close> and \<open>com_step\<close> are attributes that do not exist until
  \<^verbatim>\<open>compute_max_time\<close> and \<^verbatim>\<open>serial_start\<close> assign them;
  \<open>timer_active\<close> and \<open>timer_interval\<close> stand for the \<^verbatim>\<open>QTimer\<close>;
  \<open>written\<close> is the transport sink: the arguments of the \<^verbatim>\<open>write\<close> calls, in order.
\<close>

record thruster_gui =
  selected_interpolation :: string
  baud_rate :: int
  serial_port :: "string option"
  output_frequency :: int
  cached_pwms :: "(rat list \<times> pyfloat list) list"
  timer_active :: bool
  timer_interval :: int
  serial_conn :: "bool option"
  serial_status :: int
  points :: "(rat \<times> int) list list"
  max_time :: "rat option"
  com_step :: "int option"
  written :: "byte list list"

definition PWM_MIN :: int where "PWM_MIN = 1100"
definition PWM_MAX :: int where "PWM_MAX = 1900"
definition THRUSTER_COUNT :: nat where "THRUSTER_COUNT = 8"
definition DEFAULT_FREQUENCY :: int where "DEFAULT_FREQUENCY = 20"
definition DEFAULT_BAUD :: int where "DEFAULT_BAUD = 115200"

definition init_gui :: thruster_gui where
  "init_gui =
     \<lparr> selected_interpolation = ''linear'',
       baud_rate = DEFAULT_BAUD,
       serial_port = None,
       output_frequency = DEFAULT_FREQUENCY,
       cached_pwms = replicate 8 ([], []),
       timer_active = False,
       timer_interval = 0,
       serial_conn = None,
       serial_status = 0,
       points = replicate THRUSTER_COUNT [],
       max_time = None,
       com_step = None,
       written = [] \<rparr>"

section \<open>CRC engine\<close>

text \<open>
  One pass of the inner loop of \<^verbatim>\<open>crc8\<close>: test bit 7, shift left (with or without the
  polynomial), mask to eight bits. The register is a Python integer.
\<close>

definition crc8_shift :: "int \<Rightarrow> int" where
  "crc8_shift crc =
     (if crc AND 0x80 \<noteq> 0 then push_bit 1 crc XOR 0x07 else push_bit 1 crc) AND 0xFF"

definition crc8_byte :: "int \<Rightarrow> byte \<Rightarrow> int" where
  "crc8_byte crc b = (crc8_shift ^^ 8) (crc XOR uint b)"

definition crc8 :: "byte list \<Rightarrow> int" where
  "crc8 data = foldl crc8_byte 0x00 data"

text \<open>
  The reference CRC-8 in the words of the specification, on an eight-bit register:
  polynomial 0x07, initial register 0x00, most significant bit first. It is the
  other side of the refinement and is not taken from the source.
\<close>

definition crc8_ref_shift :: "byte \<Rightarrow> byte" where
  "crc8_ref_shift r = (if bit r 7 then push_bit 1 r XOR 0x07 else push_bit 1 r)"

definition crc8_ref_byte :: "byte \<Rightarrow> byte \<Rightarrow> byte" where
  "crc8_ref_byte r b = (crc8_ref_shift ^^ 8) (r XOR b)"

definition crc8_ref :: "byte list \<Rightarrow> byte" where
  "crc8_ref data = foldl crc8_ref_byte 0x00 data"

section \<open>Packet framer\<close>

text \<open>
  \<^verbatim>\<open>struct.pack('<8H', ...)\<close> and \<^verbatim>\<open>struct.pack('<B', ...)\<close>: little-endian unsigned
  fields; a value outside the field's range raises \<^verbatim>\<open>struct.error\<close>.
\<close>

definition le16 :: "int \<Rightarrow> byte list" where
  "le16 v = [word_of_int v, word_of_int (v div 256)]"

definition struct_pack_H :: "int list \<Rightarrow> error + byte list" where
  "struct_pack_H vs =
     (if list_all (\<lambda>v. 0 \<le> v \<and> v \<le> 65535) vs then Inr (concat (map le16 vs))
      else Inl StructError)"

definition struct_pack_B :: "int \<Rightarrow> error + byte list" where
  "struct_pack_B v = (if 0 \<le> v \<and> v \<le> 255 then Inr [word_of_int v] else Inl StructError)"

text \<open>\<^verbatim>\<open>self.serial_conn.write(data)\<close> on the transport sink.\<close>

definition conn_write :: "byte list \<Rightarrow> thruster_gui \<Rightarrow> error option \<times> thruster_gui" where
  "conn_write data s =
     (case serial_conn s of
        None \<Rightarrow> (Some AttributeError, s)
      | Some False \<Rightarrow> (Some PortNotOpenError, s)
      | Some True \<Rightarrow> (None, s\<lparr>written := written s @ [data]\<rparr>))"

definition frame_header :: "byte list" where
  "frame_header = [0xAA, 0x00, 0x00]"

definition serial_send :: "int list \<Rightarrow> thruster_gui \<Rightarrow> error option \<times> thruster_gui" where
  "serial_send pwm_values s =
     (if length pwm_values \<noteq> 8 then (Some ValueError, s)
      else
        let clamped = map (\<lambda>pwm. max 1100 (min 1900 pwm)) pwm_values in
        case struct_pack_H clamped of
          Inl e \<Rightarrow> (Some e, s)
        | Inr packet \<Rightarrow>
            if serial_status s = 1 then
              (case struct_pack_B (crc8 (frame_header @ packet)) of
                 Inl e \<Rightarrow> (Some e, s)
               | Inr c \<Rightarrow> conn_write (frame_header @ packet @ c @ [0xEE]) s)
            else (Some ConnectionError, s))"

text \<open>
  The bytes that \<^verbatim>\<open>serial_send\<close> hands to \<^verbatim>\<open>write\<close> when nothing raises, as one
  expression: the value of \<^verbatim>\<open>fullpacket\<close>.
\<close>

definition data_frame :: "int list \<Rightarrow> byte list" where
  "data_frame pwm_values =
     (let packet = concat (map le16 (map (\<lambda>pwm. max 1100 (min 1900 pwm)) pwm_values))
      in frame_header @ packet @ [word_of_int (crc8 (frame_header @ packet))] @ [0xEE])"

section \<open>Link, cache and scheduler\<close>

text \<open>
  Sequencing of two steps of a method: the second runs on the state the first left,
  unless the first raised.
\<close>

definition seq :: "error option \<times> 's \<Rightarrow> ('s \<Rightarrow> error option \<times> 's) \<Rightarrow> error option \<times> 's" where
  "seq r f = (case r of (Some e, s) \<Rightarrow> (Some e, s) | (None, s) \<Rightarrow> f s)"

text \<open>
  What \<^verbatim>\<open>serial.Serial(self.serial_port, self.baud_rate, timeout=1)\<close> does is decided
  by the environment: it returns an open port, or returns a port object that is not
  open (no port name given), or raises \<^verbatim>\<open>SerialException\<close>.
\<close>

datatype port_outcome = PortOpens | PortStaysClosed | PortRaises

definition conn_close :: "thruster_gui \<Rightarrow> error option \<times> thruster_gui" where
  "conn_close s =
     (case serial_conn s of
        None \<Rightarrow> (Some AttributeError, s)
      | Some _ \<Rightarrow> (None, s\<lparr>serial_conn := Some False\<rparr>))"

definition setup_serial :: "port_outcome \<Rightarrow> thruster_gui \<Rightarrow> error option \<times> thruster_gui" where
  "setup_serial port s =
     seq (if serial_status s = 1
          then seq (conn_close s) (\<lambda>s'. (None, s'\<lparr>serial_status := 0\<rparr>))
          else (None, s))
       (\<lambda>s1. (None,
          case port of
            PortOpens \<Rightarrow> s1\<lparr>serial_conn := Some True, serial_status := 1\<rparr>
          | PortStaysClosed \<Rightarrow> s1\<lparr>serial_conn := Some False\<rparr>
          | PortRaises \<Rightarrow> s1\<lparr>serial_conn := None, serial_status := 0\<rparr>))"

definition change_frequency :: "int \<Rightarrow> thruster_gui \<Rightarrow> error option \<times> thruster_gui" where
  "change_frequency freq s =
     (let s1 = s\<lparr>output_frequency := freq\<rparr> in
      if timer_active s1 then
        (if output_frequency s1 = 0 then (Some ZeroDivisionError, s1)
         else (None, s1\<lparr>timer_interval := 1000 div output_frequency s1\<rparr>))
      else (None, s1))"

text \<open>
  Python's \<^verbatim>\<open>int(x)\<close> of a float truncates towards zero; it raises \<^verbatim>\<open>ValueError\<close> on
  NaN and \<^verbatim>\<open>OverflowError\<close> on an infinity.
\<close>

definition py_int :: "rat \<Rightarrow> int" where
  "py_int x = (if 0 \<le> x then \<lfloor>x\<rfloor> else \<lceil>x\<rceil>)"

definition int_of_float :: "pyfloat \<Rightarrow> error + int" where
  "int_of_float y =
     (case y of
        Finite x \<Rightarrow> Inr (py_int x)
      | PosInf \<Rightarrow> Inl OverflowError
      | NegInf \<Rightarrow> Inl OverflowError
      | NaN \<Rightarrow> Inl ValueError)"

text \<open>
  The product \<^verbatim>\<open>self.max_time * self.output_frequency\<close>. \<^verbatim>\<open>max_time\<close> is the integer 0
  that \<^verbatim>\<open>compute_max_time\<close> starts from, or a waypoint time above it: with the integer
  0 the product is the integer 0; with a float the frequency is converted to a float
  (\<^verbatim>\<open>OverflowError\<close> when it is out of range) and the product is rounded to binary64.
\<close>

definition max_time_times :: "rat \<Rightarrow> int \<Rightarrow> error + pyfloat" where
  "max_time_times T freq =
     (if T = 0 then Inr (Finite 0)
      else case float64 (of_int freq) of
             Finite g \<Rightarrow> Inr (float64 (T * g))
           | _ \<Rightarrow> Inl OverflowError)"

text \<open>
  The expression \<^verbatim>\<open>int(self.max_time * self.output_frequency) + 1\<close>: the number of
  samples in \<^verbatim>\<open>compute_pwms\<close> and \<^verbatim>\<open>interpolate_thruster_curve\<close>, and the bound of the
  end-of-run test of \<^verbatim>\<open>send_pwms\<close>.
\<close>

definition step_bound :: "rat \<Rightarrow> thruster_gui \<Rightarrow> error + int" where
  "step_bound T s =
     (case max_time_times T (output_frequency s) of
        Inl e \<Rightarrow> Inl e
      | Inr p \<Rightarrow> (case int_of_float p of Inl e \<Rightarrow> Inl e | Inr n \<Rightarrow> Inr (n + 1)))"

text \<open>\<^verbatim>\<open>max(times)\<close> on a non-empty tuple.\<close>

definition py_max :: "rat list \<Rightarrow> rat" where
  "py_max ts = foldl max (hd ts) (tl ts)"

definition max_time_value :: "thruster_gui \<Rightarrow> rat" where
  "max_time_value s =
     foldl (\<lambda>m i. if points s ! i \<noteq> []
                   then (let a = py_max (map fst (points s ! i)) in if m < a then a else m)
                   else m)
       0 [0..<THRUSTER_COUNT]"

definition compute_max_time :: "thruster_gui \<Rightarrow> thruster_gui" where
  "compute_max_time s = s\<lparr>max_time := Some (max_time_value s)\<rparr>"

text \<open>
  \<^verbatim>\<open>np.linspace(start, stop, num)\<close> with the end point included, on doubles. A negative
  \<open>num\<close> raises \<^verbatim>\<open>ValueError\<close>. With \<open>dv = num - 1 > 0\<close> the step is the rounded
  quotient \<open>(stop - start) / dv\<close>, sample \<open>i\<close> is \<open>i * step + start\<close> with each
  operation rounded (or \<open>(i / dv) * (stop - start) + start\<close> when the step is zero),
  and the last sample is then set to \<open>stop\<close>. With \<open>dv \<le> 0\<close> there is no sample or
  the single sample \<open>start\<close>. Intermediate values are taken to stay in the binary64
  range.
\<close>

definition linspace :: "rat \<Rightarrow> rat \<Rightarrow> int \<Rightarrow> error + rat list" where
  "linspace start stop num =
     (if num < 0 then Inl ValueError
      else
        let dv = num - 1; delta = round64 (stop - start); idx = [0..<nat num] in
        if 0 < dv then
          let step = round64 (delta / of_int dv);
              y = (if step = 0
                   then map (\<lambda>i. round64 (round64 (of_nat i / of_int dv) * delta)) idx
                   else map (\<lambda>i. round64 (of_nat i * step)) idx)
          in Inr ((map (\<lambda>v. round64 (v + start)) y)[nat dv := stop])
        else Inr (map (\<lambda>i. round64 (round64 (of_nat i * delta) + start)) idx))"

text \<open>
  The interpolators of \<^verbatim>\<open>scipy.interpolate\<close> are not part of the repository: they are
  a parameter \<open>lib\<close>, which for a method name (\<open>linear\<close>, \<open>previous\<close> or
  \<open>barycentric\<close>), the times and the values either raises or yields the curve, a
  function from a double to a float that may be an infinity or NaN. The
  \<^verbatim>\<open>if/elif\<close> chain binds \<^verbatim>\<open>f\<close> for the three known selections only; for any
  other selection \<^verbatim>\<open>f\<close> stays unbound (\<open>None\<close> here) and the later call
  \<^verbatim>\<open>f(t_interp)\<close> raises \<^verbatim>\<open>UnboundLocalError\<close>.
\<close>

type_synonym interpolators =
  "string \<Rightarrow> rat list \<Rightarrow> int list \<Rightarrow> error + (rat \<Rightarrow> pyfloat)"

definition build_curve ::
  "interpolators \<Rightarrow> string \<Rightarrow> (rat \<times> int) list \<Rightarrow> error + (rat \<Rightarrow> pyfloat) option" where
  "build_curve lib selected pts =
     (let times = map fst pts; pwm_values = map snd pts in
      if selected = ''linear'' then map_sum id Some (lib ''linear'' times pwm_values)
      else if selected = ''constant'' then map_sum id Some (lib ''previous'' times pwm_values)
      else if selected = ''polynomial'' then map_sum id Some (lib ''barycentric'' times pwm_values)
      else Inr None)"

text \<open>
  The body of the loop of \<^verbatim>\<open>compute_pwms\<close> for channel \<open>i\<close>, up to the assignment to
  \<^verbatim>\<open>self.cached_pwms[i]\<close>. Unpacking \<^verbatim>\<open>zip(*points)\<close> of an empty list into two
  names raises \<^verbatim>\<open>ValueError\<close>. \<^verbatim>\<open>np.clip\<close> keeps a NaN.
\<close>

definition np_clip :: "rat \<Rightarrow> rat \<Rightarrow> pyfloat \<Rightarrow> pyfloat" where
  "np_clip lo hi y =
     (case y of
        Finite v \<Rightarrow> Finite (min hi (max lo v))
      | PosInf \<Rightarrow> Finite hi
      | NegInf \<Rightarrow> Finite lo
      | NaN \<Rightarrow> NaN)"

definition sample_channel ::
  "interpolators \<Rightarrow> thruster_gui \<Rightarrow> nat \<Rightarrow> error + (rat list \<times> pyfloat list)" where
  "sample_channel lib s i =
     (if points s ! i = [] then Inl ValueError
      else
        case build_curve lib (selected_interpolation s) (points s ! i) of
          Inl e \<Rightarrow> Inl e
        | Inr f \<Rightarrow>
            (case max_time s of
               None \<Rightarrow> Inl AttributeError
             | Some T \<Rightarrow>
                 (case step_bound T s of
                    Inl e \<Rightarrow> Inl e
                  | Inr num \<Rightarrow>
                      (case linspace 0 (of_int (py_round T)) num of
                         Inl e \<Rightarrow> Inl e
                       | Inr t_interp \<Rightarrow>
                           (case f of
                              None \<Rightarrow> Inl UnboundLocalError
                            | Some g \<Rightarrow>
                                Inr (t_interp, map (\<lambda>t. np_clip 1100 1900 (g t)) t_interp))))))"

fun compute_pwms_loop ::
  "interpolators \<Rightarrow> nat list \<Rightarrow> thruster_gui \<Rightarrow> error option \<times> thruster_gui" where
  "compute_pwms_loop lib [] s = (None, s)"
| "compute_pwms_loop lib (i # is) s =
     (case sample_channel lib s i of
        Inl e \<Rightarrow> (Some e, s)
      | Inr c \<Rightarrow> compute_pwms_loop lib is (s\<lparr>cached_pwms := (cached_pwms s)[i := c]\<rparr>))"

definition compute_pwms :: "interpolators \<Rightarrow> thruster_gui \<Rightarrow> error option \<times> thruster_gui" where
  "compute_pwms lib s = compute_pwms_loop lib [0..<THRUSTER_COUNT] (compute_max_time s)"

text \<open>
  \<^verbatim>\<open>interpolate_thruster_curve\<close> redraws one graph; of its effects only the assignment
  to \<^verbatim>\<open>self.max_time\<close> and the exceptions are kept.
\<close>

definition interpolate_thruster_curve ::
  "interpolators \<Rightarrow> nat \<Rightarrow> thruster_gui \<Rightarrow> error option \<times> thruster_gui" where
  "interpolate_thruster_curve lib i s =
     (if points s ! i = [] then (Some ValueError, s)
      else
        case build_curve lib (selected_interpolation s) (points s ! i) of
          Inl e \<Rightarrow> (Some e, s)
        | Inr f \<Rightarrow>
            (let s1 = compute_max_time s in
             case step_bound (max_time_value s) s1 of
               Inl e \<Rightarrow> (Some e, s1)
             | Inr num \<Rightarrow>
                 (case linspace 0 (of_int (py_round (max_time_value s))) num of
                    Inl e \<Rightarrow> (Some e, s1)
                  | Inr t_interp \<Rightarrow>
                      (case f of
                         None \<Rightarrow> (Some UnboundLocalError, s1)
                       | Some g \<Rightarrow> (None, s1)))))"

text \<open>The seven single-byte writes of \<^verbatim>\<open>serial_start\<close>.\<close>

definition start_sequence :: "byte list list" where
  "start_sequence = [[0xFF], [0x00], [0x01], [0x00], [0x00], [0x52], [0xEE]]"

fun conn_write_all :: "byte list list \<Rightarrow> thruster_gui \<Rightarrow> error option \<times> thruster_gui" where
  "conn_write_all [] s = (None, s)"
| "conn_write_all (d # ds) s = seq (conn_write d s) (conn_write_all ds)"

definition serial_start ::
  "port_outcome \<Rightarrow> interpolators \<Rightarrow> thruster_gui \<Rightarrow> error option \<times> thruster_gui" where
  "serial_start port lib s =
     seq (setup_serial port s) (\<lambda>s1.
       if serial_status s1 = 0 then (Some ConnectionError, s1)
       else
         seq (compute_pwms lib s1) (\<lambda>s2.
           seq (if serial_status s2 = 1 then conn_write_all start_sequence s2 else (None, s2))
             (\<lambda>s3.
               let s4 = s3\<lparr>com_step := Some 0\<rparr> in
               if output_frequency s4 = 0 then (Some ZeroDivisionError, s4)
               else (None, s4\<lparr>timer_active := True,
                               timer_interval := 1000 div output_frequency s4\<rparr>))))"

definition serial_send_idle :: "port_outcome \<Rightarrow> thruster_gui \<Rightarrow> error option \<times> thruster_gui" where
  "serial_send_idle port s =
     seq (if serial_status s = 0 then setup_serial port s else (None, s)) (\<lambda>s1.
       seq (serial_send (replicate 8 1500) (s1\<lparr>timer_active := False\<rparr>)) (\<lambda>s2.
         seq (conn_close s2) (\<lambda>s3. (None, s3\<lparr>serial_status := 0\<rparr>))))"

definition serial_start_stop ::
  "port_outcome \<Rightarrow> interpolators \<Rightarrow> thruster_gui \<Rightarrow> error option \<times> thruster_gui" where
  "serial_start_stop port lib s =
     (if serial_status s = 1 then serial_send_idle port s else serial_start port lib s)"

text \<open>
  Python indexing of a sequence: a negative index counts from the end; \<open>None\<close> is
  \<^verbatim>\<open>IndexError\<close>.
\<close>

definition py_index :: "'a list \<Rightarrow> int \<Rightarrow> 'a option" where
  "py_index xs i =
     (let n = int (length xs); j = (if i < 0 then n + i else i) in
      if 0 \<le> j \<and> j < n then Some (xs ! nat j) else None)"

text \<open>
  \<^verbatim>\<open>get_pwms\<close>: the bare \<^verbatim>\<open>except\<close> swallows the first failing lookup or conversion
  (an index out of range, a NaN sample) and the values gathered so far are returned.
\<close>

fun get_pwms_loop :: "int \<Rightarrow> (rat list \<times> pyfloat list) list \<Rightarrow> int list" where
  "get_pwms_loop step [] = []"
| "get_pwms_loop step (c # cs) =
     (case py_index (snd c) step of
        None \<Rightarrow> []
      | Some y \<Rightarrow>
          (case int_of_float y of
             Inl e \<Rightarrow> []
           | Inr v \<Rightarrow> v # get_pwms_loop step cs))"

definition get_pwms :: "int \<Rightarrow> thruster_gui \<Rightarrow> int list" where
  "get_pwms step s = get_pwms_loop step (take THRUSTER_COUNT (cached_pwms s))"

definition send_pwms :: "port_outcome \<Rightarrow> thruster_gui \<Rightarrow> error option \<times> thruster_gui" where
  "send_pwms port s =
     (case com_step s of
        None \<Rightarrow> (Some AttributeError, s)
      | Some c \<Rightarrow>
          (case max_time s of
             None \<Rightarrow> (Some AttributeError, s)
           | Some T \<Rightarrow>
               (case step_bound T s of
                  Inl e \<Rightarrow> (Some e, s)
                | Inr b \<Rightarrow>
                    if c \<le> b then
                      seq (serial_send (get_pwms c s) s)
                        (\<lambda>s1. (None, s1\<lparr>com_step := Some (c + 1)\<rparr>))
                    else serial_send_idle port s)))"

text \<open>
  The timer calls \<^verbatim>\<open>send_pwms\<close> on every timeout while it is active. An exception
  that leaves the slot does not rearm or stop the timer; the state is the one at the
  raise. A run is one port outcome per timeout event.
\<close>

definition timeout_event :: "port_outcome \<Rightarrow> thruster_gui \<Rightarrow> error option \<times> thruster_gui" where
  "timeout_event port s = (if timer_active s then send_pwms port s else (None, s))"

fun run_timer :: "port_outcome list \<Rightarrow> thruster_gui \<Rightarrow> thruster_gui" where
  "run_timer [] s = s"
| "run_timer (p # ps) s = run_timer ps (snd (timeout_event p s))"

section \<open>Sequence snapshots\<close>

text \<open>
  The JSON object of a saved sequence: each key may be missing; \<open>thruster_data\<close> maps
  the decimal channel index to the list of time and PWM pairs.
\<close>

record snapshot =
  interpolation_method :: "string option"
  frequency :: "int option"
  thruster_data :: "(string \<rightharpoonup> (rat \<times> int) list) option"

definition digit_char :: "nat \<Rightarrow> char" where
  "digit_char d = ''0123456789'' ! d"

fun str :: "nat \<Rightarrow> string" where
  "str n = (if n < 10 then [digit_char n] else str (n div 10) @ [digit_char (n mod 10)])"

declare str.simps [simp del]

text \<open>
  \<^verbatim>\<open>json_save_sequence\<close> with a file chosen and written: the object handed to
  \<^verbatim>\<open>json.dump\<close>, whose integer keys are written as decimal strings.
\<close>

definition json_save_sequence :: "thruster_gui \<Rightarrow> snapshot" where
  "json_save_sequence s =
     \<lparr> interpolation_method = Some (selected_interpolation s),
       frequency = Some (output_frequency s),
       thruster_data = Some (map_of (map (\<lambda>i. (str i, points s ! i)) [0..<THRUSTER_COUNT])) \<rparr>"

fun json_load_loop ::
  "interpolators \<Rightarrow> snapshot \<Rightarrow> nat list \<Rightarrow> thruster_gui \<Rightarrow> error option \<times> thruster_gui" where
  "json_load_loop lib data [] s = (None, s)"
| "json_load_loop lib data (i # is) s =
     (case thruster_data data of
        None \<Rightarrow> (Some KeyError, s)
      | Some td \<Rightarrow>
          seq (interpolate_thruster_curve lib i
                 (s\<lparr>points := (points s)[i := (case td (str i) of None \<Rightarrow> [] | Some l \<Rightarrow> l)]\<rparr>))
            (json_load_loop lib data is))"

text \<open>
  \<^verbatim>\<open>json_load_sequence\<close> with a file chosen and parsed to \<open>data\<close>. Whatever is raised
  inside the \<^verbatim>\<open>try\<close> is caught and printed, so the method returns the state reached.
\<close>

definition json_load_sequence :: "interpolators \<Rightarrow> snapshot \<Rightarrow> thruster_gui \<Rightarrow> thruster_gui" where
  "json_load_sequence lib data s =
     snd (json_load_loop lib data [0..<THRUSTER_COUNT]
            (s\<lparr>selected_interpolation :=
                  (case interpolation_method data of None \<Rightarrow> ''linear'' | Some m \<Rightarrow> m),
                output_frequency := (case frequency data of None \<Rightarrow> 20 | Some f \<Rightarrow> f)\<rparr>))"

section \<open>Fields no tick touches\<close>

text \<open>
  Two states agree on the cache, on \<^verbatim>\<open>max_time\<close>, on the frequency and on the
  waypoints.
\<close>

definition same_cache :: "thruster_gui \<Rightarrow> thruster_gui \<Rightarrow> bool" where
  "same_cache s s' \<longleftrightarrow>
     cached_pwms s' = cached_pwms s \<and> max_time s' = max_time s
     \<and> output_frequency s' = output_frequency s \<and> points s' = points s"

section \<open>Example states\<close>

text \<open>Concrete states and inputs at which the properties below are evaluated.\<close>

definition open_idle_gui :: thruster_gui where
  "open_idle_gui = init_gui\<lparr>serial_conn := Some True, serial_status := 1\<rparr>"

definition idle_frame :: "byte list" where
  "idle_frame =
     [0xAA, 0x00, 0x00, 0xDC, 0x05, 0xDC, 0x05, 0xDC, 0x05, 0xDC, 0x05,
      0xDC, 0x05, 0xDC, 0x05, 0xDC, 0x05, 0xDC, 0x05, 0x81, 0xEE]"

text \<open>
  A stand-in for the interpolation library in the examples: for every method, the
  curve holds the value of the latest waypoint at or before the queried time, and the
  first value before all of them.
\<close>

definition hold_lib :: interpolators where
  "hold_lib kind ts vs =
     Inr (\<lambda>t. Finite (of_int (foldl (\<lambda>acc (tk, vk). if tk \<le> t then vk else acc) (hd vs)
                                 (zip ts vs))))"

definition two_point_gui :: thruster_gui where
  "two_point_gui =
     init_gui\<lparr>output_frequency := 1, points := replicate 8 [(0, 1500), (1, 1600)]\<rparr>"

text \<open>
  The state after a start on \<open>two_point_gui\<close>, and the state two timeouts later, when
  both samples are sent.
\<close>

definition two_point_started :: thruster_gui where
  "two_point_started = snd (serial_start PortOpens hold_lib two_point_gui)"

definition end_of_cache_gui :: thruster_gui where
  "end_of_cache_gui = run_timer [PortOpens, PortOpens] two_point_started"

definition one_channel_gui :: thruster_gui where
  "one_channel_gui = init_gui\<lparr>points := [(0, 1500), (1, 1600)] # replicate 7 []\<rparr>"

text \<open>
  The doubles \<open>i * 0.05\<close> for \<open>i\<close> from 0 to 19, each product rounded, and then 1.0:
  the value of \<^verbatim>\<open>np.linspace(0, 1, 21)\<close>.
\<close>

definition twentieths :: "rat list" where
  "twentieths =
          [0,
           3602879701896397 / 72057594037927936,
           3602879701896397 / 36028797018963968,
           1351079888211149 / 9007199254740992,
           3602879701896397 / 18014398509481984,
           1 / 4,
           1351079888211149 / 4503599627370496,
           6305039478318695 / 18014398509481984,
           3602879701896397 / 9007199254740992,
           8106479329266893 / 18014398509481984,
           1 / 2,
           2476979795053773 / 4503599627370496,
           1351079888211149 / 2251799813685248,
           5854679515581645 / 9007199254740992,
           6305039478318695 / 9007199254740992,
           3 / 4,
           3602879701896397 / 4503599627370496,
           1914029841632461 / 2251799813685248,
           8106479329266893 / 9007199254740992,
           8556839292003943 / 9007199254740992,
           1]"

definition half_time_gui :: thruster_gui where
  "half_time_gui =
     init_gui\<lparr>output_frequency := 1, points := replicate 8 [(0, 1500), (3 / 2, 1600)]\<rparr>"

definition second_only_gui :: thruster_gui where
  "second_only_gui =
     init_gui\<lparr>selected_interpolation := ''constant'', output_frequency := 50,
               points := [[], [(0, 1500), (1, 1600)], [], [], [], [], [], []]\<rparr>"

text \<open>
  A run that lowers the frequency: start at 5 Hz with the last waypoint at 1 s (six
  samples a channel), one timeout, \<^verbatim>\<open>change_frequency(1)\<close>, two more timeouts.
\<close>

text \<open>
  The doubles \<open>i * 0.2\<close> for \<open>i\<close> from 0 to 4, each product rounded, and then 1.0: the
  value of \<^verbatim>\<open>np.linspace(0, 1, 6)\<close>.
\<close>

definition fifths :: "rat list" where
  "fifths =
     [0,
      3602879701896397 / 18014398509481984,
      3602879701896397 / 9007199254740992,
      1351079888211149 / 2251799813685248,
      3602879701896397 / 4503599627370496,
      1]"

definition five_hz_gui :: thruster_gui where
  "five_hz_gui =
     init_gui\<lparr>output_frequency := 5, points := replicate 8 [(0, 1500), (1, 1600)]\<rparr>"

definition five_hz_started :: thruster_gui where
  "five_hz_started = snd (serial_start PortOpens hold_lib five_hz_gui)"

definition lowered_gui :: thruster_gui where
  "lowered_gui = snd (change_frequency 1 (run_timer [PortOpens] five_hz_started))"

definition lowered_end_gui :: thruster_gui where
  "lowered_end_gui = run_timer [PortOpens, PortOpens] lowered_gui"

text \<open>
  A run that raises the frequency: start at 1 Hz with the last waypoint at 2 s (three
  samples a channel), one timeout, \<^verbatim>\<open>change_frequency(5)\<close>, twelve more timeouts.
\<close>

definition two_second_gui :: thruster_gui where
  "two_second_gui =
     init_gui\<lparr>output_frequency := 1, points := replicate 8 [(0, 1500), (2, 1600)]\<rparr>"

definition two_second_started :: thruster_gui where
  "two_second_started = snd (serial_start PortOpens hold_lib two_second_gui)"

definition raised_gui :: thruster_gui where
  "raised_gui = snd (change_frequency 5 (run_timer [PortOpens] two_second_started))"

definition raised_end_gui :: thruster_gui where
  "raised_end_gui = run_timer (replicate 12 PortOpens) raised_gui"

text \<open>The same raise with the last waypoint at 0.125 s.\<close>

definition eighth_second_gui :: thruster_gui where
  "eighth_second_gui =
     init_gui\<lparr>output_frequency := 1, points := replicate 8 [(0, 1500), (1 / 8, 1600)]\<rparr>"

definition eighth_started :: thruster_gui where
  "eighth_started = snd (serial_start PortOpens hold_lib eighth_second_gui)"

definition eighth_raised_gui :: thruster_gui where
  "eighth_raised_gui = snd (change_frequency 5 eighth_started)"

section \<open>Properties of the CRC engine\<close>

lemma crc8_top_bit: "(uint (r::byte) AND 0x80 \<noteq> 0) = bit r 7"
  using and_exp_eq_0_iff_not_bit [of "uint r" 7] by (simp add: bit_uint_iff)

lemma and_FF_take_bit: "(x::int) AND 0xFF = take_bit 8 x"
  by (simp add: take_bit_eq_mask mask_eq_exp_minus_1)

lemma crc8_shift_ref: "crc8_shift (uint r) = uint (crc8_ref_shift r)"
proof -
  have x: "take_bit 8 (a XOR 7) = take_bit 8 a XOR (7::int)" for a
    by (simp add: take_bit_xor)
  have p: "uint (push_bit 1 r) = take_bit 8 (push_bit 1 (uint r))"
    by (simp only: unsigned_push_bit_eq) simp
  show ?thesis
  proof (cases "bit r 7")
    case True
    then have "crc8_shift (uint r) = take_bit 8 (push_bit 1 (uint r) XOR 7)"
      unfolding crc8_shift_def by (simp only: crc8_top_bit and_FF_take_bit if_True)
    also have "\<dots> = uint (push_bit 1 r) XOR 7"
      by (simp only: x p)
    also have "\<dots> = uint (crc8_ref_shift r)"
      using True unfolding crc8_ref_shift_def by (simp only: uint_xor if_True) simp
    finally show ?thesis .
  next
    case False
    then have "crc8_shift (uint r) = take_bit 8 (push_bit 1 (uint r))"
      unfolding crc8_shift_def by (simp only: crc8_top_bit and_FF_take_bit if_False)
    also have "\<dots> = uint (crc8_ref_shift r)"
      using False unfolding crc8_ref_shift_def by (simp only: p if_False)
    finally show ?thesis .
  qed
qed

lemma crc8_shift_funpow: "(crc8_shift ^^ n) (uint r) = uint ((crc8_ref_shift ^^ n) r)"
  by (induction n) (simp_all add: crc8_shift_ref)

lemma crc8_byte_ref: "crc8_byte (uint r) b = uint (crc8_ref_byte r b)"
  unfolding crc8_byte_def crc8_ref_byte_def
  by (simp add: crc8_shift_funpow flip: uint_xor)

lemma crc8_foldl_ref: "foldl crc8_byte (uint r) data = uint (foldl crc8_ref_byte r data)"
  by (induction data arbitrary: r) (simp_all add: crc8_byte_ref)

lemma crc8_eq_ref: "crc8 data = uint (crc8_ref data)"
  using crc8_foldl_ref [of 0 data] by (simp add: crc8_def crc8_ref_def)

lemma crc8_range: "0 \<le> crc8 data \<and> crc8 data \<le> 255"
proof -
  have "uint (crc8_ref data) < 2 ^ LENGTH(8)" by (rule uint_lt2p)
  then show ?thesis by (simp add: crc8_eq_ref)
qed

text \<open>
  Claim C2. \<^verbatim>\<open>crc8\<close> maps every byte sequence to one octet, a value between 0 and 255,
  and that value is the reference bit-wise CRC-8 (polynomial 0x07, initial register
  0x00, most significant bit first) of the same bytes. Being a function of its
  argument alone, it is pure and deterministic.
\<close>

theorem crc8_refines_reference:
  "crc8 data = uint (crc8_ref data) \<and> 0 \<le> crc8 data \<and> crc8 data \<le> 255"
  using crc8_eq_ref [of data] crc8_range [of data] by simp

section \<open>Properties of the packet framer\<close>

lemma length_concat_le16: "length (concat (map le16 vs)) = 2 * length vs"
  by (induction vs) (simp_all add: le16_def)

lemma nth_concat_le16:
  "i < length vs \<Longrightarrow>
     concat (map le16 vs) ! (2 * i) = word_of_int (vs ! i) \<and>
     concat (map le16 vs) ! (Suc (2 * i)) = word_of_int (vs ! i div 256)"
proof (induction vs arbitrary: i)
  case Nil
  then show ?case by simp
next
  case (Cons v vs)
  show ?case
  proof (cases i)
    case 0
    then show ?thesis by (simp add: le16_def)
  next
    case (Suc j)
    with Cons.prems have "j < length vs" by simp
    from Cons.IH [OF this] Suc show ?thesis by (simp add: le16_def)
  qed
qed

lemma le16_decode:
  assumes "0 \<le> v" and "v \<le> 65535"
  shows "uint (word_of_int v :: byte) + 256 * uint (word_of_int (v div 256) :: byte) = v"
proof -
  have a: "uint (word_of_int v :: byte) = v mod 256"
    by (simp add: uint_word_of_int)
  have "0 \<le> v div 256" "v div 256 < 256" using assms by auto
  then have b: "uint (word_of_int (v div 256) :: byte) = v div 256"
    by (simp add: uint_word_of_int)
  show ?thesis unfolding a b by simp
qed

lemma clamp_range: "1100 \<le> max 1100 (min 1900 (p::int)) \<and> max 1100 (min 1900 p) \<le> 1900"
  by simp

lemma struct_pack_H_clamped:
  "struct_pack_H (map (\<lambda>pwm. max 1100 (min 1900 pwm)) vs) =
     Inr (concat (map le16 (map (\<lambda>pwm. max 1100 (min 1900 pwm)) vs)))"
  unfolding struct_pack_H_def by (auto simp: list_all_iff)

lemma struct_pack_B_crc8: "struct_pack_B (crc8 data) = Inr [word_of_int (crc8 data)]"
  unfolding struct_pack_B_def using crc8_range [of data] by simp

lemma serial_send_open:
  assumes "length pwm_values = 8" and "serial_status s = 1" and "serial_conn s = Some True"
  shows "serial_send pwm_values s = (None, s\<lparr>written := written s @ [data_frame pwm_values]\<rparr>)"
  using assms unfolding serial_send_def data_frame_def
  by (simp add: struct_pack_H_clamped struct_pack_B_crc8 conn_write_def Let_def)

lemma data_frame_layout:
  assumes "length pwm_values = 8"
  shows "length (data_frame pwm_values) = 21"
    and "take 3 (data_frame pwm_values) = [0xAA, 0x00, 0x00]"
    and "\<forall>i<8. uint (data_frame pwm_values ! (3 + 2 * i))
                  + 256 * uint (data_frame pwm_values ! (4 + 2 * i))
                = max 1100 (min 1900 (pwm_values ! i))"
    and "uint (data_frame pwm_values ! 19) = crc8 (take 19 (data_frame pwm_values))"
    and "data_frame pwm_values ! 20 = 0xEE"
proof -
  let ?cl = "map (\<lambda>pwm. max 1100 (min 1900 pwm)) pwm_values"
  let ?packet = "concat (map le16 ?cl)"
  have len: "length ?packet = 16" using assms length_concat_le16 [of ?cl] by simp
  have df: "data_frame pwm_values = frame_header @ ?packet @ [word_of_int (crc8 (frame_header @ ?packet))] @ [0xEE]"
    by (simp add: data_frame_def Let_def)
  have hl: "length frame_header = 3" by (simp add: frame_header_def)
  show "length (data_frame pwm_values) = 21" unfolding df using len hl by simp
  show "take 3 (data_frame pwm_values) = [0xAA, 0x00, 0x00]"
    unfolding df using hl by (simp add: frame_header_def)
  show "\<forall>i<8. uint (data_frame pwm_values ! (3 + 2 * i))
                  + 256 * uint (data_frame pwm_values ! (4 + 2 * i))
                = max 1100 (min 1900 (pwm_values ! i))"
  proof (intro allI impI)
    fix i :: nat assume i: "i < 8"
    then have il: "i < length ?cl" using assms by simp
    have lt: "2 * i < length ?packet" "Suc (2 * i) < length ?packet" using len i by simp_all
    have a: "data_frame pwm_values ! (3 + 2 * i) = ?packet ! (2 * i)"
      unfolding df using hl lt by (simp add: nth_append)
    have b: "data_frame pwm_values ! (4 + 2 * i) = ?packet ! (Suc (2 * i))"
      unfolding df using hl lt by (simp add: nth_append)
    have c: "?cl ! i = max 1100 (min 1900 (pwm_values ! i))" using i assms by simp
    have r: "0 \<le> ?cl ! i" "?cl ! i \<le> 65535" unfolding c by simp_all
    show "uint (data_frame pwm_values ! (3 + 2 * i))
                  + 256 * uint (data_frame pwm_values ! (4 + 2 * i))
                = max 1100 (min 1900 (pwm_values ! i))"
      unfolding a b using nth_concat_le16 [OF il] le16_decode [OF r] c by simp
  qed
  have t19: "take 19 (data_frame pwm_values) = frame_header @ ?packet"
    unfolding df using len hl by simp
  have n19: "data_frame pwm_values ! 19 = word_of_int (crc8 (frame_header @ ?packet))"
    unfolding df using len hl by (simp add: nth_append)
  show "uint (data_frame pwm_values ! 19) = crc8 (take 19 (data_frame pwm_values))"
    unfolding t19 n19 using crc8_range [of "frame_header @ ?packet"]
    by (simp add: uint_word_of_int)
  show "data_frame pwm_values ! 20 = 0xEE"
    unfolding df using len hl by (simp add: nth_append)
qed

lemma idle_frame_bytes:
  "data_frame (replicate 8 1500) =
     [0xAA, 0x00, 0x00, 0xDC, 0x05, 0xDC, 0x05, 0xDC, 0x05, 0xDC, 0x05,
      0xDC, 0x05, 0xDC, 0x05, 0xDC, 0x05, 0xDC, 0x05, 0x81, 0xEE]"
  by code_simp

text \<open>
  Claim C1. With the link open (\<^verbatim>\<open>serial_status == 1\<close> and an open port object),
  \<^verbatim>\<open>serial_send\<close> on a list of exactly eight integers raises nothing and makes exactly
  one \<^verbatim>\<open>write\<close>, of a frame of 21 bytes: bytes 0 to 2 are AA 00 00; bytes 3 to 18
  decode, as eight little-endian unsigned 16-bit fields in channel order, to the
  eight values clamped to the range 1100 to 1900; byte 19 is \<^verbatim>\<open>crc8\<close> of bytes 0 to
  18; byte 20 is EE.
\<close>

theorem serial_send_frame:
  assumes "length pwm_values = 8" and "serial_status s = 1" and "serial_conn s = Some True"
  shows "\<exists>frame. serial_send pwm_values s = (None, s\<lparr>written := written s @ [frame]\<rparr>)
           \<and> length frame = 21
           \<and> take 3 frame = [0xAA, 0x00, 0x00]
           \<and> (\<forall>i<8. uint (frame ! (3 + 2 * i)) + 256 * uint (frame ! (4 + 2 * i))
                      = max 1100 (min 1900 (pwm_values ! i)))
           \<and> uint (frame ! 19) = crc8 (take 19 frame)
           \<and> frame ! 20 = 0xEE"
  using serial_send_open [OF assms] data_frame_layout [OF assms(1)] by blast

theorem serial_send_frame_witness:
  "length [1000, 1100, 1500, 1900, 2000, 1235, 0, -5 :: int] = 8
   \<and> serial_status open_idle_gui = 1 \<and> serial_conn open_idle_gui = Some True
   \<and> (\<exists>frame. serial_send [1000, 1100, 1500, 1900, 2000, 1235, 0, -5] open_idle_gui
                  = (None, open_idle_gui\<lparr>written := written open_idle_gui @ [frame]\<rparr>)
           \<and> length frame = 21
           \<and> take 3 frame = [0xAA, 0x00, 0x00]
           \<and> (\<forall>i<8. uint (frame ! (3 + 2 * i)) + 256 * uint (frame ! (4 + 2 * i))
                      = max 1100 (min 1900 ([1000, 1100, 1500, 1900, 2000, 1235, 0, -5] ! i)))
           \<and> uint (frame ! 19) = crc8 (take 19 frame)
           \<and> frame ! 20 = 0xEE)"
proof -
  have h1: "length [1000, 1100, 1500, 1900, 2000, 1235, 0, -5 :: int] = 8" by simp
  have h2: "serial_status open_idle_gui = 1" by (simp add: open_idle_gui_def)
  have h3: "serial_conn open_idle_gui = Some True" by (simp add: open_idle_gui_def)
  from serial_send_frame [OF h1 h2 h3] h1 h2 h3 show ?thesis by blast
qed

section \<open>Sequencing\<close>

lemma seq_None [simp]: "seq (None, s) f = f s"
  by (simp add: seq_def)

lemma seq_Some [simp]: "seq (Some e, s) f = (Some e, s)"
  by (simp add: seq_def)

section \<open>Properties of the cache rebuild\<close>

lemma linspace_length: "linspace a b n = Inr ts \<Longrightarrow> length ts = nat n"
  by (auto simp: linspace_def Let_def split: if_splits)

lemma linspace_nonneg: "linspace a b n = Inr ts \<Longrightarrow> 0 \<le> n"
  by (auto simp: linspace_def split: if_splits)

lemma step_bound_cached [simp]: "step_bound T (s\<lparr>cached_pwms := x\<rparr>) = step_bound T s"
  by (simp add: step_bound_def)

lemma np_clip_range:
  "np_clip 1100 1900 y = NaN \<or> (\<exists>v. np_clip 1100 1900 y = Finite v \<and> 1100 \<le> v \<and> v \<le> 1900)"
  by (cases y) (simp_all add: np_clip_def)

lemma sample_channel_cached [simp]:
  "sample_channel lib (s\<lparr>cached_pwms := x\<rparr>) i = sample_channel lib s i"
  by (simp add: sample_channel_def cong: sum.case_cong option.case_cong)

lemma sample_channel_empty: "points s ! i = [] \<Longrightarrow> sample_channel lib s i = Inl ValueError"
  by (simp add: sample_channel_def)

lemma sample_channel_Inr:
  assumes "sample_channel lib s i = Inr c" and "max_time s = Some T"
  obtains num where "points s ! i \<noteq> []" and "step_bound T s = Inr num" and "0 \<le> num"
    and "linspace 0 (of_int (py_round T)) num = Inr (fst c)"
    and "length (fst c) = nat num" and "length (snd c) = nat num"
    and "\<forall>y\<in>set (snd c). y = NaN \<or> (\<exists>v. y = Finite v \<and> 1100 \<le> v \<and> v \<le> 1900)"
proof -
  have ne: "points s ! i \<noteq> []" using assms(1) by (auto simp: sample_channel_def)
  from assms ne obtain f num t_interp g where
    sb: "step_bound T s = Inr num" and
    l: "linspace 0 (of_int (py_round T)) num = Inr t_interp" and
    c: "c = (t_interp, map (\<lambda>t. np_clip 1100 1900 (g t)) t_interp)"
    by (auto simp: sample_channel_def split: sum.splits option.splits)
  have len: "length t_interp = nat num" by (rule linspace_length [OF l])
  have cl: "\<forall>y\<in>set (snd c). y = NaN \<or> (\<exists>v. y = Finite v \<and> 1100 \<le> v \<and> v \<le> 1900)"
    unfolding c using np_clip_range by auto
  show thesis
    by (rule that [OF ne sb linspace_nonneg [OF l]]) (use l len cl in \<open>simp_all add: c\<close>)
qed

lemma compute_pwms_loop_fields:
  "compute_pwms_loop lib is s = (r, s') \<Longrightarrow>
     points s' = points s \<and> max_time s' = max_time s \<and> output_frequency s' = output_frequency s
     \<and> selected_interpolation s' = selected_interpolation s
     \<and> serial_status s' = serial_status s \<and> serial_conn s' = serial_conn s
     \<and> timer_active s' = timer_active s \<and> timer_interval s' = timer_interval s
     \<and> com_step s' = com_step s \<and> written s' = written s
     \<and> length (cached_pwms s') = length (cached_pwms s)"
proof (induction "is" arbitrary: s)
  case Nil
  then show ?case by simp
next
  case (Cons i "is")
  show ?case
  proof (cases "sample_channel lib s i")
    case (Inl e)
    with Cons.prems show ?thesis by simp
  next
    case (Inr c)
    with Cons.prems
    have "compute_pwms_loop lib is (s\<lparr>cached_pwms := (cached_pwms s)[i := c]\<rparr>) = (r, s')" by simp
    from Cons.IH [OF this] show ?thesis by simp
  qed
qed

lemma compute_pwms_loop_ok:
  assumes "compute_pwms_loop lib is s = (None, s')" and "distinct is"
    and "\<forall>i\<in>set is. i < length (cached_pwms s)"
  shows "\<forall>i\<in>set is. sample_channel lib s i = Inr (cached_pwms s' ! i)"
    and "\<forall>j. j \<notin> set is \<longrightarrow> cached_pwms s' ! j = cached_pwms s ! j"
  using assms
proof (induction "is" arbitrary: s)
  case Nil
  { case 1 then show ?case by simp }
  { case 2 then show ?case by simp }
next
  case (Cons i "is")
  { case 1
    from 1(1) obtain c where c: "sample_channel lib s i = Inr c"
      by (cases "sample_channel lib s i") simp_all
    let ?s1 = "s\<lparr>cached_pwms := (cached_pwms s)[i := c]\<rparr>"
    from 1(1) c have run: "compute_pwms_loop lib is ?s1 = (None, s')" by simp
    have d: "distinct is" and ni: "i \<notin> set is" using 1(2) by simp_all
    have b: "\<forall>i\<in>set is. i < length (cached_pwms ?s1)" using 1(3) by simp
    from Cons.IH(1) [OF run d b] have a1: "\<forall>k\<in>set is. sample_channel lib s k = Inr (cached_pwms s' ! k)"
      by simp
    from Cons.IH(2) [OF run d b] ni have "cached_pwms s' ! i = cached_pwms ?s1 ! i" by blast
    also have "\<dots> = c" using 1(3) by simp
    finally show ?case using a1 c by simp }
  { case 2
    from 2(1) obtain c where c: "sample_channel lib s i = Inr c"
      by (cases "sample_channel lib s i") simp_all
    let ?s1 = "s\<lparr>cached_pwms := (cached_pwms s)[i := c]\<rparr>"
    from 2(1) c have run: "compute_pwms_loop lib is ?s1 = (None, s')" by simp
    have d: "distinct is" using 2(2) by simp
    have b: "\<forall>i\<in>set is. i < length (cached_pwms ?s1)" using 2(3) by simp
    from Cons.IH(2) [OF run d b] show ?case by auto }
qed

lemma compute_pwms_loop_empty_channel:
  assumes "i \<in> set is" and "points s ! i = []"
  shows "fst (compute_pwms_loop lib is s) \<noteq> None"
  using assms
proof (induction "is" arbitrary: s)
  case Nil
  then show ?case by simp
next
  case (Cons k "is")
  show ?case
  proof (cases "sample_channel lib s k")
    case (Inl e)
    then show ?thesis by simp
  next
    case (Inr c)
    with Cons.prems sample_channel_empty [of s i lib] have ki: "k \<noteq> i" by auto
    with Cons.prems have "i \<in> set is" by simp
    from Cons.IH [OF this, of "s\<lparr>cached_pwms := (cached_pwms s)[k := c]\<rparr>"] Cons.prems(2) Inr
    show ?thesis by simp
  qed
qed

lemma compute_pwms_empty_channel:
  assumes "i < 8" and "points s ! i = []"
  shows "fst (compute_pwms lib s) \<noteq> None"
proof -
  have "i \<in> set [0..<THRUSTER_COUNT]" using assms(1) by (simp add: THRUSTER_COUNT_def)
  moreover have "points (compute_max_time s) ! i = []" using assms(2) by (simp add: compute_max_time_def)
  ultimately show ?thesis unfolding compute_pwms_def by (rule compute_pwms_loop_empty_channel)
qed

lemma compute_pwms_first_empty:
  assumes "points s ! 0 = []"
  shows "compute_pwms lib s = (Some ValueError, compute_max_time s)"
proof -
  have "[0..<THRUSTER_COUNT] = 0 # [1..<8]" by (simp add: THRUSTER_COUNT_def upt_conv_Cons)
  moreover have "sample_channel lib (compute_max_time s) 0 = Inl ValueError"
    using assms by (simp add: sample_channel_empty compute_max_time_def)
  ultimately show ?thesis by (simp add: compute_pwms_def)
qed

lemma compute_pwms_ok:
  assumes "compute_pwms lib s = (None, s')" and "length (cached_pwms s) = 8" and "i < 8"
  obtains num where "max_time s' = Some (max_time_value s)"
    and "output_frequency s' = output_frequency s"
    and "points s ! i \<noteq> []"
    and "step_bound (max_time_value s) s = Inr num" and "0 \<le> num"
    and "linspace 0 (of_int (py_round (max_time_value s))) num = Inr (fst (cached_pwms s' ! i))"
    and "length (fst (cached_pwms s' ! i)) = nat num"
    and "length (snd (cached_pwms s' ! i)) = nat num"
    and "\<forall>y\<in>set (snd (cached_pwms s' ! i)).
           y = NaN \<or> (\<exists>v. y = Finite v \<and> 1100 \<le> v \<and> v \<le> 1900)"
proof -
  let ?s1 = "compute_max_time s"
  have run: "compute_pwms_loop lib [0..<THRUSTER_COUNT] ?s1 = (None, s')"
    using assms(1) by (simp add: compute_pwms_def)
  have mt: "max_time ?s1 = Some (max_time_value s)" by (simp add: compute_max_time_def)
  from compute_pwms_loop_fields [OF run]
  have f1: "max_time s' = Some (max_time_value s)" and f2: "output_frequency s' = output_frequency s"
    by (simp_all add: compute_max_time_def)
  have "\<forall>i\<in>set [0..<THRUSTER_COUNT]. i < length (cached_pwms ?s1)"
    using assms(2) by (simp add: compute_max_time_def THRUSTER_COUNT_def)
  from compute_pwms_loop_ok(1) [OF run _ this] assms(3)
  have sc: "sample_channel lib ?s1 i = Inr (cached_pwms s' ! i)"
    by (simp add: THRUSTER_COUNT_def)
  have sb: "step_bound (max_time_value s) ?s1 = step_bound (max_time_value s) s"
    by (simp add: step_bound_def compute_max_time_def)
  have pt: "points ?s1 = points s" by (simp add: compute_max_time_def)
  from sc mt obtain num where "points ?s1 ! i \<noteq> []"
    and "step_bound (max_time_value s) ?s1 = Inr num" and "0 \<le> num"
    and "linspace 0 (of_int (py_round (max_time_value s))) num = Inr (fst (cached_pwms s' ! i))"
    and "length (fst (cached_pwms s' ! i)) = nat num"
    and "length (snd (cached_pwms s' ! i)) = nat num"
    and "\<forall>y\<in>set (snd (cached_pwms s' ! i)).
           y = NaN \<or> (\<exists>v. y = Finite v \<and> 1100 \<le> v \<and> v \<le> 1900)"
    by (rule sample_channel_Inr)
  then show thesis unfolding sb pt using f1 f2 by (intro that) assumption+
qed

lemma one_channel_rebuild:
  "compute_pwms hold_lib one_channel_gui =
     (Some ValueError,
      one_channel_gui\<lparr>cached_pwms := (twentieths, replicate 20 (Finite 1500) @ [Finite 1600])
                                       # replicate 7 ([], []),
                      max_time := Some 1\<rparr>)"
  by code_simp

lemma half_time_rebuild:
  "compute_pwms hold_lib half_time_gui =
     (None,
      half_time_gui\<lparr>cached_pwms := replicate 8 ([0, 2], [Finite 1500, Finite 1600]),
                      max_time := Some (3 / 2)\<rparr>)"
  by code_simp

text \<open>
  Claim C6. The rebuild is to skip a channel without waypoints and still complete when
  some channel has waypoints. \<^verbatim>\<open>compute_pwms\<close> does not: unlike \<^verbatim>\<open>compute_max_time\<close>, its
  loop has no guard for an empty channel, and unpacking \<^verbatim>\<open>zip(*points)\<close> raises
  \<^verbatim>\<open>ValueError\<close>. With waypoints on channel 0 only, channel 0 is sampled and the
  rebuild then raises at channel 1, leaving channels 1 to 7 as they were.
\<close>

theorem compute_pwms_one_empty_channel:
  "points one_channel_gui ! 0 = [(0, 1500), (1, 1600)]
   \<and> fst (compute_pwms hold_lib one_channel_gui) = Some ValueError
   \<and> cached_pwms (snd (compute_pwms hold_lib one_channel_gui))
       = (twentieths, replicate 20 (Finite 1500) @ [Finite 1600]) # replicate 7 ([], [])"
  unfolding one_channel_rebuild by (simp add: one_channel_gui_def)

text \<open>
  Claim C8. Each non-empty channel is to hold \<open>floor(round(max_time) * frequency) + 1\<close>
  samples, evenly spaced from 0 to \<open>round(max_time)\<close>. \<^verbatim>\<open>compute_pwms\<close> takes the number
  of samples from the unrounded \<^verbatim>\<open>max_time\<close>: with the last waypoint at 1.5 s and
  1 Hz it caches 2 samples, at 0 s and 2 s, where the claim has 3, one per period.
\<close>

theorem compute_pwms_half_time:
  "fst (compute_pwms hold_lib half_time_gui) = None
   \<and> max_time (snd (compute_pwms hold_lib half_time_gui)) = Some (3 / 2)
   \<and> output_frequency half_time_gui = 1
   \<and> cached_pwms (snd (compute_pwms hold_lib half_time_gui))
       = replicate 8 ([0, 2], [Finite 1500, Finite 1600])
   \<and> \<lfloor>rat_of_int (py_round (3 / 2)) * 1\<rfloor> + 1 = 3"
proof -
  have r: "\<lfloor>rat_of_int (py_round (3 / 2)) * 1\<rfloor> + 1 = 3" by code_simp
  show ?thesis unfolding half_time_rebuild using r by (simp add: half_time_gui_def)
qed

section \<open>Properties of the start of a run\<close>

lemma setup_serial_result:
  assumes "serial_status s = 0 \<or> (serial_status s = 1 \<and> serial_conn s \<noteq> None)"
  shows "setup_serial port s =
           (None, s\<lparr>serial_conn := (case port of PortOpens \<Rightarrow> Some True
                                     | PortStaysClosed \<Rightarrow> Some False | PortRaises \<Rightarrow> None),
                    serial_status := (if port = PortOpens then 1 else 0)\<rparr>)"
  using assms by (cases port) (auto simp: setup_serial_def conn_close_def)

text \<open>
  Claim C5, as amended. With all eight channels empty \<^verbatim>\<open>serial_start\<close> fails and does
  not begin streaming: nothing is written, the timer, the cursor and the cache are
  as before. It raises \<^verbatim>\<open>ConnectionError\<close> when the port does not open and otherwise
  the \<^verbatim>\<open>ValueError\<close> of the rebuild. The link is not left unchanged: \<^verbatim>\<open>setup_serial\<close>
  has run by then, so \<^verbatim>\<open>serial_status\<close> is 1 afterwards exactly when the port opened.
\<close>

theorem serial_start_all_empty:
  assumes "points s = replicate 8 []"
    and "serial_status s = 0 \<or> (serial_status s = 1 \<and> serial_conn s \<noteq> None)"
  shows "fst (serial_start port lib s) = Some (if port = PortOpens then ValueError else ConnectionError)
       \<and> serial_status (snd (serial_start port lib s)) = (if port = PortOpens then 1 else 0)
       \<and> timer_active (snd (serial_start port lib s)) = timer_active s
       \<and> com_step (snd (serial_start port lib s)) = com_step s
       \<and> written (snd (serial_start port lib s)) = written s
       \<and> cached_pwms (snd (serial_start port lib s)) = cached_pwms s"
proof -
  let ?s1 = "s\<lparr>serial_conn := (case port of PortOpens \<Rightarrow> Some True
                                     | PortStaysClosed \<Rightarrow> Some False | PortRaises \<Rightarrow> None),
                    serial_status := (if port = PortOpens then 1 else 0)\<rparr>"
  have st: "setup_serial port s = (None, ?s1)" by (rule setup_serial_result [OF assms(2)])
  have "points ?s1 ! 0 = []" using assms(1) by simp
  then have cp: "compute_pwms lib ?s1 = (Some ValueError, compute_max_time ?s1)"
    by (rule compute_pwms_first_empty)
  show ?thesis
  proof (cases "port = PortOpens")
    case True
    from st cp show ?thesis unfolding True
      by (simp add: serial_start_def compute_max_time_def)
  next
    case False
    then show ?thesis by (simp add: serial_start_def st)
  qed
qed

theorem serial_start_all_empty_witness:
  "points init_gui = replicate 8 []
   \<and> (serial_status init_gui = 0 \<or> (serial_status init_gui = 1 \<and> serial_conn init_gui \<noteq> None))
   \<and> fst (serial_start PortOpens hold_lib init_gui) = Some ValueError
   \<and> serial_status (snd (serial_start PortOpens hold_lib init_gui)) = 1
   \<and> timer_active (snd (serial_start PortOpens hold_lib init_gui)) = timer_active init_gui
   \<and> com_step (snd (serial_start PortOpens hold_lib init_gui)) = com_step init_gui
   \<and> written (snd (serial_start PortOpens hold_lib init_gui)) = written init_gui
   \<and> cached_pwms (snd (serial_start PortOpens hold_lib init_gui)) = cached_pwms init_gui"
proof -
  have h1: "points init_gui = replicate 8 []" by (simp add: init_gui_def THRUSTER_COUNT_def)
  have h2: "serial_status init_gui = 0 \<or> (serial_status init_gui = 1 \<and> serial_conn init_gui \<noteq> None)"
    by (simp add: init_gui_def)
  from serial_start_all_empty [OF h1 h2, of PortOpens hold_lib] h1 h2 show ?thesis by simp
qed

theorem serial_start_all_empty_counterexample:
  "points init_gui = replicate 8 [] \<and> serial_status init_gui = 0 \<and> serial_conn init_gui = None
   \<and> fst (serial_start PortOpens hold_lib init_gui) = Some ValueError
   \<and> serial_status (snd (serial_start PortOpens hold_lib init_gui)) = 1
   \<and> serial_conn (snd (serial_start PortOpens hold_lib init_gui)) = Some True"
  by code_simp

section \<open>The example runs, evaluated\<close>

lemma two_point_start:
  "serial_start PortOpens hold_lib two_point_gui =
     (None,
      two_point_gui\<lparr>cached_pwms := replicate 8 ([0, 1], [Finite 1500, Finite 1600]),
         timer_active := True, timer_interval := 1000,
         serial_conn := Some True, serial_status := 1,
         max_time := Some 1, com_step := Some 0,
         written := start_sequence\<rparr>)"
  by code_simp

lemma two_point_started_eq:
  "two_point_started =
      two_point_gui\<lparr>cached_pwms := replicate 8 ([0, 1], [Finite 1500, Finite 1600]),
         timer_active := True, timer_interval := 1000,
         serial_conn := Some True, serial_status := 1,
         max_time := Some 1, com_step := Some 0,
         written := start_sequence\<rparr>"
  unfolding two_point_started_def two_point_start by simp

lemma end_of_cache_gui_eq:
  "end_of_cache_gui =
     two_point_gui\<lparr>cached_pwms := replicate 8 ([0, 1], [Finite 1500, Finite 1600]),
                    timer_active := True, timer_interval := 1000,
                    serial_conn := Some True, serial_status := 1,
                    max_time := Some 1, com_step := Some 2,
                    written := start_sequence
                       @ [data_frame (replicate 8 1500), data_frame (replicate 8 1600)]\<rparr>"
  unfolding end_of_cache_gui_def two_point_started_eq by code_simp

lemma five_hz_start:
  "serial_start PortOpens hold_lib five_hz_gui =
     (None,
      five_hz_gui\<lparr>cached_pwms := replicate 8 (fifths, replicate 5 (Finite 1500) @ [Finite 1600]),
         timer_active := True, timer_interval := 200,
         serial_conn := Some True, serial_status := 1,
         max_time := Some 1, com_step := Some 0,
         written := start_sequence\<rparr>)"
  by code_simp

lemma five_hz_started_eq:
  "five_hz_started =
      five_hz_gui\<lparr>cached_pwms := replicate 8 (fifths, replicate 5 (Finite 1500) @ [Finite 1600]),
         timer_active := True, timer_interval := 200,
         serial_conn := Some True, serial_status := 1,
         max_time := Some 1, com_step := Some 0,
         written := start_sequence\<rparr>"
  unfolding five_hz_started_def five_hz_start by simp

lemma lowered_change:
  "change_frequency 1 (run_timer [PortOpens] five_hz_started) =
     (None,
      five_hz_gui\<lparr>output_frequency := 1,
                  cached_pwms := replicate 8 (fifths, replicate 5 (Finite 1500) @ [Finite 1600]),
                  timer_active := True, timer_interval := 1000,
                  serial_conn := Some True, serial_status := 1,
                  max_time := Some 1, com_step := Some 1,
                  written := start_sequence @ [data_frame (replicate 8 1500)]\<rparr>)"
  unfolding five_hz_started_eq by code_simp

lemma lowered_gui_eq:
  "lowered_gui =
     five_hz_gui\<lparr>output_frequency := 1,
                  cached_pwms := replicate 8 (fifths, replicate 5 (Finite 1500) @ [Finite 1600]),
                  timer_active := True, timer_interval := 1000,
                  serial_conn := Some True, serial_status := 1,
                  max_time := Some 1, com_step := Some 1,
                  written := start_sequence @ [data_frame (replicate 8 1500)]\<rparr>"
  unfolding lowered_gui_def lowered_change by simp

lemma lowered_end_gui_eq:
  "lowered_end_gui =
     five_hz_gui\<lparr>output_frequency := 1,
                  cached_pwms := replicate 8 (fifths, replicate 5 (Finite 1500) @ [Finite 1600]),
                  timer_active := True, timer_interval := 1000,
                  serial_conn := Some True, serial_status := 1,
                  max_time := Some 1, com_step := Some 3,
                  written := start_sequence @ replicate 3 (data_frame (replicate 8 1500))\<rparr>"
  unfolding lowered_end_gui_def lowered_gui_eq by code_simp

lemma two_second_start:
  "serial_start PortOpens hold_lib two_second_gui =
     (None,
      two_second_gui\<lparr>cached_pwms := replicate 8 ([0, 1, 2], [Finite 1500, Finite 1500, Finite 1600]),
         timer_active := True, timer_interval := 1000,
         serial_conn := Some True, serial_status := 1,
         max_time := Some 2, com_step := Some 0,
         written := start_sequence\<rparr>)"
  by code_simp

lemma two_second_started_eq:
  "two_second_started =
      two_second_gui\<lparr>cached_pwms := replicate 8 ([0, 1, 2], [Finite 1500, Finite 1500, Finite 1600]),
         timer_active := True, timer_interval := 1000,
         serial_conn := Some True, serial_status := 1,
         max_time := Some 2, com_step := Some 0,
         written := start_sequence\<rparr>"
  unfolding two_second_started_def two_second_start by simp

lemma raised_change:
  "change_frequency 5 (run_timer [PortOpens] two_second_started) =
     (None,
      two_second_gui\<lparr>output_frequency := 5,
                     cached_pwms := replicate 8 ([0, 1, 2], [Finite 1500, Finite 1500, Finite 1600]),
                     timer_active := True, timer_interval := 200,
                     serial_conn := Some True, serial_status := 1,
                     max_time := Some 2, com_step := Some 1,
                     written := start_sequence @ [data_frame (replicate 8 1500)]\<rparr>)"
  unfolding two_second_started_eq by code_simp

lemma raised_gui_eq:
  "raised_gui =
     two_second_gui\<lparr>output_frequency := 5,
                     cached_pwms := replicate 8 ([0, 1, 2], [Finite 1500, Finite 1500, Finite 1600]),
                     timer_active := True, timer_interval := 200,
                     serial_conn := Some True, serial_status := 1,
                     max_time := Some 2, com_step := Some 1,
                     written := start_sequence @ [data_frame (replicate 8 1500)]\<rparr>"
  unfolding raised_gui_def raised_change by simp

lemma raised_end_gui_eq:
  "raised_end_gui =
     two_second_gui\<lparr>output_frequency := 5,
                     cached_pwms := replicate 8 ([0, 1, 2], [Finite 1500, Finite 1500, Finite 1600]),
                     timer_active := True, timer_interval := 200,
                     serial_conn := Some True, serial_status := 1,
                     max_time := Some 2, com_step := Some 3,
                     written := start_sequence
                        @ [data_frame (replicate 8 1500), data_frame (replicate 8 1500),
                           data_frame (replicate 8 1600)]\<rparr>"
  unfolding raised_end_gui_def raised_gui_eq by code_simp

lemma eighth_start:
  "serial_start PortOpens hold_lib eighth_second_gui =
     (None,
      eighth_second_gui\<lparr>cached_pwms := replicate 8 ([0], [Finite 1500]),
         timer_active := True, timer_interval := 1000,
         serial_conn := Some True, serial_status := 1,
         max_time := Some (1 / 8), com_step := Some 0,
         written := start_sequence\<rparr>)"
  by code_simp

lemma eighth_started_eq:
  "eighth_started =
      eighth_second_gui\<lparr>cached_pwms := replicate 8 ([0], [Finite 1500]),
         timer_active := True, timer_interval := 1000,
         serial_conn := Some True, serial_status := 1,
         max_time := Some (1 / 8), com_step := Some 0,
         written := start_sequence\<rparr>"
  unfolding eighth_started_def eighth_start by simp

lemma eighth_raised_gui_eq:
  "eighth_raised_gui =
     eighth_second_gui\<lparr>output_frequency := 5,
                        cached_pwms := replicate 8 ([0], [Finite 1500]),
                        timer_active := True, timer_interval := 200,
                        serial_conn := Some True, serial_status := 1,
                        max_time := Some (1 / 8), com_step := Some 0,
                        written := start_sequence\<rparr>"
  unfolding eighth_raised_gui_def eighth_started_eq by code_simp

lemma step_bound_lowered_end: "step_bound 1 lowered_end_gui = Inr 2"
  unfolding lowered_end_gui_eq by code_simp

lemma step_bound_raised: "step_bound 2 raised_gui = Inr 11"
  unfolding raised_gui_eq by code_simp

lemma step_bound_raised_end: "step_bound 2 raised_end_gui = Inr 11"
  unfolding raised_end_gui_eq by code_simp

lemma step_bound_eighth_raised: "step_bound (1 / 8) eighth_raised_gui = Inr 1"
  unfolding eighth_raised_gui_eq by code_simp

lemma step_bound_five_hz: "step_bound 1 five_hz_gui = Inr 6"
  by code_simp

lemma step_bound_two_second: "step_bound 2 two_second_gui = Inr 3"
  by code_simp

lemma max_time_value_five_hz: "max_time_value five_hz_gui = 1"
  by code_simp

lemma max_time_value_two_second: "max_time_value two_second_gui = 2"
  by code_simp

section \<open>Properties of the scheduler\<close>

lemma run_timer_inactive: "\<not> timer_active s \<Longrightarrow> run_timer ports s = s"
  by (induction ports) (simp_all add: timeout_event_def)

lemma serial_send_idle_open:
  assumes "serial_status s = 1" and "serial_conn s = Some True"
  shows "serial_send_idle port s =
           (None, s\<lparr>timer_active := False,
                    written := written s @ [data_frame (replicate 8 1500)],
                    serial_conn := Some False,
                    serial_status := 0\<rparr>)"
proof -
  let ?s1 = "s\<lparr>timer_active := False\<rparr>"
  have "serial_send (replicate 8 1500) ?s1
          = (None, ?s1\<lparr>written := written ?s1 @ [data_frame (replicate 8 1500)]\<rparr>)"
    by (rule serial_send_open) (simp_all add: assms)
  then show ?thesis
    using assms by (simp add: serial_send_idle_def conn_close_def)
qed

lemma send_pwms_idle:
  assumes "serial_status s = 1" and "serial_conn s = Some True"
    and "com_step s = Some c" and "max_time s = Some T"
    and "step_bound T s = Inr b" and "b < c"
  shows "send_pwms port s =
           (None, s\<lparr>timer_active := False,
                    written := written s @ [idle_frame],
                    serial_conn := Some False,
                    serial_status := 0\<rparr>)"
  using assms(3-6) serial_send_idle_open [OF assms(1,2), of port]
  by (simp add: send_pwms_def idle_frame_bytes idle_frame_def)

text \<open>
  Claim C3. While streaming (timer active, link open), a tick whose cursor exceeds the
  bound \<^verbatim>\<open>int(max_time * output_frequency) + 1\<close> performs the idle sequence: it stops
  the timer, writes one idle frame (all eight channels 1500), closes the port and
  sets \<^verbatim>\<open>serial_status\<close> to 0. Whatever timeouts follow in the run, nothing more is
  written. A run reaches such a tick when the frequency is lowered on the way, as in
  the run to \<open>lowered_end_gui\<close>, whose cursor 3 is above the bound 2 and inside the
  six cached samples.
\<close>

theorem send_pwms_end_of_run:
  assumes "timer_active s" and "serial_status s = 1" and "serial_conn s = Some True"
    and "com_step s = Some c" and "max_time s = Some T"
    and "step_bound T s = Inr b" and "b < c"
  shows "send_pwms port s =
           (None, s\<lparr>timer_active := False,
                    written := written s @ [idle_frame],
                    serial_conn := Some False,
                    serial_status := 0\<rparr>)
         \<and> written (run_timer ports (snd (send_pwms port s))) = written s @ [idle_frame]"
proof -
  have a: "send_pwms port s =
           (None, s\<lparr>timer_active := False,
                    written := written s @ [idle_frame],
                    serial_conn := Some False,
                    serial_status := 0\<rparr>)"
    by (rule send_pwms_idle [OF assms(2-7)])
  have "\<not> timer_active (snd (send_pwms port s))" unfolding a by simp
  from run_timer_inactive [OF this] show ?thesis using a by simp
qed

theorem send_pwms_end_of_run_witness:
  "timer_active lowered_end_gui \<and> serial_status lowered_end_gui = 1
   \<and> serial_conn lowered_end_gui = Some True \<and> com_step lowered_end_gui = Some 3
   \<and> max_time lowered_end_gui = Some 1 \<and> step_bound 1 lowered_end_gui = Inr 2
   \<and> (2::int) < 3
   \<and> map (\<lambda>ch. length (snd ch)) (cached_pwms lowered_end_gui) = replicate 8 6
   \<and> send_pwms PortOpens lowered_end_gui =
           (None, lowered_end_gui\<lparr>timer_active := False,
                    written := written lowered_end_gui @ [idle_frame],
                    serial_conn := Some False,
                    serial_status := 0\<rparr>)
   \<and> written (run_timer [PortOpens, PortOpens, PortOpens]
                 (snd (send_pwms PortOpens lowered_end_gui)))
        = written lowered_end_gui @ [idle_frame]"
proof -
  have h1: "timer_active lowered_end_gui" by (simp add: lowered_end_gui_eq)
  have h2: "serial_status lowered_end_gui = 1" by (simp add: lowered_end_gui_eq)
  have h3: "serial_conn lowered_end_gui = Some True" by (simp add: lowered_end_gui_eq)
  have h4: "com_step lowered_end_gui = Some 3" by (simp add: lowered_end_gui_eq)
  have h5: "max_time lowered_end_gui = Some 1" by (simp add: lowered_end_gui_eq)
  have h6: "(2::int) < 3" by simp
  have h7: "map (\<lambda>ch. length (snd ch)) (cached_pwms lowered_end_gui) = replicate 8 6"
    by (simp add: lowered_end_gui_eq fifths_def)
  from send_pwms_end_of_run [OF h1 h2 h3 h4 h5 step_bound_lowered_end h6,
         of PortOpens "[PortOpens, PortOpens, PortOpens]"]
       h1 h2 h3 h4 h5 h6 h7 step_bound_lowered_end
  show ?thesis by blast
qed

lemma get_pwms_loop_all:
  assumes "0 \<le> c"
    and "\<forall>x\<in>set cs. nat c < length (snd x) \<and> (\<exists>v. snd x ! nat c = Finite v)"
  shows "map Inr (get_pwms_loop c cs) = map (\<lambda>x. int_of_float (snd x ! nat c)) cs"
  using assms(2)
proof (induction cs)
  case Nil
  then show ?case by simp
next
  case (Cons x cs)
  then obtain v where l: "nat c < length (snd x)" and v: "snd x ! nat c = Finite v" by auto
  from l assms(1) have "py_index (snd x) c = Some (snd x ! nat c)"
    by (simp add: py_index_def Let_def)
  with v Cons show ?case by (simp add: int_of_float_def)
qed

lemma get_pwms_loop_length: "length (get_pwms_loop c cs) \<le> length cs"
  by (induction cs) (simp_all split: option.splits sum.splits)

lemma get_pwms_loop_short:
  assumes "x \<in> set cs" and "py_index (snd x) c = None"
  shows "length (get_pwms_loop c cs) < length cs"
  using assms(1)
proof (induction cs)
  case Nil
  then show ?case by simp
next
  case (Cons y cs)
  show ?case
  proof (cases "x = y")
    case True
    then show ?thesis using assms(2) by simp
  next
    case False
    with Cons.prems have "x \<in> set cs" by simp
    from Cons.IH [OF this] have "length (get_pwms_loop c cs) < length cs" .
    then show ?thesis by (simp split: option.splits sum.splits)
  qed
qed

lemma get_pwms_all:
  assumes "0 \<le> c" and "length (cached_pwms s) = 8"
    and "\<forall>x\<in>set (cached_pwms s). nat c < length (snd x) \<and> (\<exists>v. snd x ! nat c = Finite v)"
  shows "map Inr (get_pwms c s) = map (\<lambda>x. int_of_float (snd x ! nat c)) (cached_pwms s)"
    and "length (get_pwms c s) = 8"
proof -
  have t: "take THRUSTER_COUNT (cached_pwms s) = cached_pwms s"
    using assms(2) by (simp add: THRUSTER_COUNT_def)
  show m: "map Inr (get_pwms c s) = map (\<lambda>x. int_of_float (snd x ! nat c)) (cached_pwms s)"
    unfolding get_pwms_def t by (rule get_pwms_loop_all [OF assms(1,3)])
  from arg_cong [OF m, of length] show "length (get_pwms c s) = 8"
    using assms(2) by simp
qed

lemma get_pwms_short:
  assumes "length (cached_pwms s) = 8" and "x \<in> set (cached_pwms s)"
    and "py_index (snd x) c = None"
  shows "length (get_pwms c s) \<noteq> 8"
proof -
  have t: "take THRUSTER_COUNT (cached_pwms s) = cached_pwms s"
    using assms(1) by (simp add: THRUSTER_COUNT_def)
  from get_pwms_loop_short [OF assms(2,3)] show ?thesis
    unfolding get_pwms_def t using assms(1) by simp
qed

lemma send_pwms_short:
  assumes "com_step s = Some c" and "max_time s = Some T"
    and "step_bound T s = Inr b" and "c \<le> b"
    and "length (cached_pwms s) = 8" and "x \<in> set (cached_pwms s)"
    and "py_index (snd x) c = None"
  shows "send_pwms port s = (Some ValueError, s)"
  using assms(1-4) get_pwms_short [OF assms(5,6,7)]
  by (simp add: send_pwms_def serial_send_def)

lemma send_pwms_data:
  assumes "serial_status s = 1" and "serial_conn s = Some True"
    and "com_step s = Some c" and "max_time s = Some T"
    and "step_bound T s = Inr b" and "c \<le> b" and "0 \<le> c"
    and "length (cached_pwms s) = 8"
    and "\<forall>x\<in>set (cached_pwms s). nat c < length (snd x) \<and> (\<exists>v. snd x ! nat c = Finite v)"
  shows "send_pwms port s =
           (None, s\<lparr>written := written s @ [data_frame (get_pwms c s)],
                    com_step := Some (c + 1)\<rparr>)"
proof -
  have "length (get_pwms c s) = 8" by (rule get_pwms_all(2) [OF assms(7,8,9)])
  from serial_send_open [OF this assms(1,2)] assms(3-6)
  show ?thesis by (simp add: send_pwms_def)
qed

text \<open>
  Claim C4. On every tick with the cursor not above the bound a complete vector is to
  be framed and sent and the cursor advanced. \<^verbatim>\<open>send_pwms\<close> tests
  \<^verbatim>\<open>com_step <= int(max_time * output_frequency) + 1\<close>, but the cached arrays have
  exactly that many samples, so the test admits the cursor one past the last sample. After a start on \<open>two_point_gui\<close> and the two ticks that send its two
  samples, the cursor is 2 and the bound is 2: the tick finds no sample, \<^verbatim>\<open>get_pwms\<close>
  returns the empty list, \<^verbatim>\<open>serial_send\<close> raises \<^verbatim>\<open>ValueError\<close>, nothing is written and
  the cursor stays, so every later timeout does the same and the idle branch is not
  reached.
\<close>

theorem send_pwms_at_step_count:
  "timer_active end_of_cache_gui \<and> serial_status end_of_cache_gui = 1
   \<and> serial_conn end_of_cache_gui = Some True
   \<and> map (\<lambda>ch. length (snd ch)) (cached_pwms end_of_cache_gui) = replicate 8 2
   \<and> com_step end_of_cache_gui = Some 2 \<and> max_time end_of_cache_gui = Some 1
   \<and> step_bound 1 end_of_cache_gui = Inr 2
   \<and> get_pwms 2 end_of_cache_gui = []
   \<and> send_pwms PortOpens end_of_cache_gui = (Some ValueError, end_of_cache_gui)
   \<and> run_timer [PortOpens, PortOpens, PortOpens] end_of_cache_gui = end_of_cache_gui"
proof -
  have sb: "step_bound 1 end_of_cache_gui = Inr 2"
    unfolding end_of_cache_gui_eq by code_simp
  have g: "get_pwms 2 end_of_cache_gui = []"
    unfolding end_of_cache_gui_eq by code_simp
  have e: "send_pwms PortOpens end_of_cache_gui = (Some ValueError, end_of_cache_gui)"
    using sb g
    by (simp add: send_pwms_def serial_send_def end_of_cache_gui_eq)
  have t: "timer_active end_of_cache_gui" by (simp add: end_of_cache_gui_eq)
  have r: "run_timer [PortOpens, PortOpens, PortOpens] end_of_cache_gui = end_of_cache_gui"
    using e t by (simp add: timeout_event_def)
  show ?thesis
    using sb g e r by (simp add: end_of_cache_gui_eq)
qed

section \<open>Properties of a frequency change during a run\<close>

lemma snd_seq: "snd (seq r f) = (case fst r of None \<Rightarrow> snd (f (snd r)) | Some e \<Rightarrow> snd r)"
  by (cases r) (auto simp: seq_def split: option.splits)

lemma seq_preserves:
  assumes "P (snd r)" and "\<And>s. P s \<Longrightarrow> P (snd (f s))"
  shows "P (snd (seq r f))"
  using assms by (simp add: snd_seq split: option.splits)

lemma same_cache_refl [simp]: "same_cache s s"
  by (simp add: same_cache_def)

lemma same_cacheD:
  assumes "same_cache s s'"
  shows "cached_pwms s' = cached_pwms s" and "max_time s' = max_time s"
    and "output_frequency s' = output_frequency s" and "points s' = points s"
  using assms unfolding same_cache_def by blast+

lemma same_cache_trans: "same_cache s s' \<Longrightarrow> same_cache s' s'' \<Longrightarrow> same_cache s s''"
  by (simp add: same_cache_def)

lemma conn_write_cache: "same_cache s (snd (conn_write d s))"
  by (simp add: conn_write_def same_cache_def split: option.splits bool.splits)

lemma conn_close_cache: "same_cache s (snd (conn_close s))"
  by (simp add: conn_close_def same_cache_def split: option.splits)

lemma serial_send_cache: "same_cache s (snd (serial_send v s))"
  using conn_write_cache [of s]
  by (simp add: serial_send_def Let_def split: sum.splits)

lemma setup_serial_cache: "same_cache s (snd (setup_serial port s))"
  by (cases port) (auto simp: setup_serial_def conn_close_def same_cache_def snd_seq split: option.splits)

lemma serial_send_idle_cache: "same_cache s (snd (serial_send_idle port s))"
  unfolding serial_send_idle_def
proof (rule seq_preserves [where P = "same_cache s"], goal_cases)
  case 1
  then show ?case using setup_serial_cache [of s port] by simp
next
  case (2 s1)
  show ?case
  proof (rule seq_preserves [where P = "same_cache s"], goal_cases)
    case 1
    have t: "same_cache s1 (s1\<lparr>timer_active := False\<rparr>)" by (simp add: same_cache_def)
    show ?case
      by (rule same_cache_trans [OF same_cache_trans [OF 2 t] serial_send_cache])
  next
    case (2 s2)
    show ?case
    proof (rule seq_preserves [where P = "same_cache s"], goal_cases)
      case 1
      show ?case by (rule same_cache_trans [OF 2 conn_close_cache])
    next
      case (2 s3)
      then show ?case by (simp add: same_cache_def)
    qed
  qed
qed

lemma send_pwms_cache: "same_cache s (snd (send_pwms port s))"
proof (cases "com_step s")
  case None
  then show ?thesis by (simp add: send_pwms_def)
next
  case (Some c)
  note c = this
  show ?thesis
  proof (cases "max_time s")
    case None
    then show ?thesis using c by (simp add: send_pwms_def)
  next
    case (Some T)
    note T = this
    show ?thesis
    proof (cases "step_bound T s")
      case (Inl e)
      then show ?thesis using c T by (simp add: send_pwms_def)
    next
      case (Inr b)
      show ?thesis
      proof (cases "c \<le> b")
        case True
        have "same_cache s (snd (seq (serial_send (get_pwms c s) s)
                                  (\<lambda>s1. (None, s1\<lparr>com_step := Some (c + 1)\<rparr>))))"
        proof (rule seq_preserves [where P = "same_cache s"], goal_cases)
          case 1
          then show ?case by (rule serial_send_cache)
        next
          case (2 s1)
          then show ?case by (simp add: same_cache_def)
        qed
        then show ?thesis using c T Inr True by (simp add: send_pwms_def)
      next
        case False
        then show ?thesis
          using c T Inr serial_send_idle_cache [of s port] by (simp add: send_pwms_def)
      qed
    qed
  qed
qed

lemma run_timer_cache: "same_cache s (run_timer ports s)"
proof (induction ports arbitrary: s)
  case Nil
  then show ?case by simp
next
  case (Cons p ports)
  have "same_cache s (snd (timeout_event p s))"
    using send_pwms_cache [of s p] by (simp add: timeout_event_def)
  from same_cache_trans [OF this Cons.IH [of "snd (timeout_event p s)"]] show ?case
    by simp
qed

lemma change_frequency_fields:
  "cached_pwms (snd (change_frequency f' s)) = cached_pwms s
   \<and> max_time (snd (change_frequency f' s)) = max_time s
   \<and> com_step (snd (change_frequency f' s)) = com_step s
   \<and> output_frequency (snd (change_frequency f' s)) = f'"
  by (simp add: change_frequency_def Let_def)

lemma conn_write_all_cache: "same_cache s (snd (conn_write_all ds s))"
proof (induction ds arbitrary: s)
  case Nil
  then show ?case by simp
next
  case (Cons d ds)
  show ?case unfolding conn_write_all.simps
  proof (rule seq_preserves [where P = "same_cache s"], goal_cases)
    case 1
    then show ?case by (rule conn_write_cache)
  next
    case (2 s1)
    show ?case by (rule same_cache_trans [OF 2 Cons.IH])
  qed
qed

lemma max_time_value_points: "points s' = points s \<Longrightarrow> max_time_value s' = max_time_value s"
  unfolding max_time_value_def by (erule subst) (rule refl)

lemma foldl_max_time_nonneg:
  "0 \<le> m \<Longrightarrow> 0 \<le> foldl (\<lambda>m i. if ps ! i \<noteq> []
                   then (let a = py_max (map fst (ps ! i)) in if m < a then a else m)
                   else m) m is"
  by (induction "is" arbitrary: m) (auto simp: Let_def)

lemma max_time_value_nonneg: "0 \<le> max_time_value s"
  unfolding max_time_value_def by (rule foldl_max_time_nonneg) simp

lemma seq_NoneD:
  assumes "seq r f = (None, s')"
  obtains s where "r = (None, s)" and "f s = (None, s')"
proof (cases r)
  case (Pair e s)
  with assms have "e = None" by (cases e) (simp_all add: seq_def)
  with Pair assms that show thesis by simp
qed

lemma serial_start_NoneD:
  assumes "serial_start port lib s0 = (None, s1)"
  obtains sa sb sc where "setup_serial port s0 = (None, sa)"
    and "compute_pwms lib sa = (None, sb)"
    and "sc = sb \<or> conn_write_all start_sequence sb = (None, sc)"
    and "s1 = sc\<lparr>com_step := Some 0, timer_active := True,
                     timer_interval := 1000 div output_frequency sc\<rparr>"
proof -
  from assms obtain sa where a: "setup_serial port s0 = (None, sa)"
    and ra: "(if serial_status sa = 0 then (Some ConnectionError, sa)
       else seq (compute_pwms lib sa) (\<lambda>s2.
           seq (if serial_status s2 = 1 then conn_write_all start_sequence s2 else (None, s2))
             (\<lambda>s3.
               let s4 = s3\<lparr>com_step := Some 0\<rparr> in
               if output_frequency s4 = 0 then (Some ZeroDivisionError, s4)
               else (None, s4\<lparr>timer_active := True,
                               timer_interval := 1000 div output_frequency s4\<rparr>)))) = (None, s1)"
    unfolding serial_start_def by (rule seq_NoneD)
  from ra have rb: "seq (compute_pwms lib sa) (\<lambda>s2.
           seq (if serial_status s2 = 1 then conn_write_all start_sequence s2 else (None, s2))
             (\<lambda>s3.
               let s4 = s3\<lparr>com_step := Some 0\<rparr> in
               if output_frequency s4 = 0 then (Some ZeroDivisionError, s4)
               else (None, s4\<lparr>timer_active := True,
                               timer_interval := 1000 div output_frequency s4\<rparr>))) = (None, s1)"
    by (cases "serial_status sa = 0") simp_all
  from rb obtain sb where b: "compute_pwms lib sa = (None, sb)"
    and rc: "seq (if serial_status sb = 1 then conn_write_all start_sequence sb else (None, sb))
             (\<lambda>s3.
               let s4 = s3\<lparr>com_step := Some 0\<rparr> in
               if output_frequency s4 = 0 then (Some ZeroDivisionError, s4)
               else (None, s4\<lparr>timer_active := True,
                               timer_interval := 1000 div output_frequency s4\<rparr>)) = (None, s1)"
    by (rule seq_NoneD)
  from rc obtain sc where c: "(if serial_status sb = 1 then conn_write_all start_sequence sb else (None, sb)) = (None, sc)"
    and rd: "(let s4 = sc\<lparr>com_step := Some 0\<rparr> in
               if output_frequency s4 = 0 then (Some ZeroDivisionError, s4)
               else (None, s4\<lparr>timer_active := True,
                               timer_interval := 1000 div output_frequency s4\<rparr>)) = (None, s1)"
    by (rule seq_NoneD)
  from c have c': "sc = sb \<or> conn_write_all start_sequence sb = (None, sc)"
    by (cases "serial_status sb = 1") simp_all
  from rd have d: "s1 = sc\<lparr>com_step := Some 0, timer_active := True,
                     timer_interval := 1000 div output_frequency sc\<rparr>"
    by (cases "output_frequency sc = 0") (simp_all add: Let_def)
  from a b c' d that show thesis by blast
qed

lemma serial_start_ok:
  assumes "serial_start port lib s0 = (None, s1)" and "length (cached_pwms s0) = 8"
  obtains b where "max_time s1 = Some (max_time_value s0)"
    and "output_frequency s1 = output_frequency s0"
    and "step_bound (max_time_value s0) s0 = Inr b" and "0 \<le> b"
    and "length (cached_pwms s1) = 8"
    and "\<forall>x\<in>set (cached_pwms s1). length (snd x) = nat b"
    and "\<forall>x\<in>set (cached_pwms s1). \<forall>y\<in>set (snd x). y = NaN \<or> (\<exists>v. y = Finite v)"
    and "timer_active s1" and "com_step s1 = Some 0"
proof -
  from assms(1) obtain sa sb sc where a: "setup_serial port s0 = (None, sa)"
    and ok: "compute_pwms lib sa = (None, sb)"
    and w: "sc = sb \<or> conn_write_all start_sequence sb = (None, sc)"
    and fin: "s1 = sc\<lparr>com_step := Some 0, timer_active := True,
                     timer_interval := 1000 div output_frequency sc\<rparr>"
    by (rule serial_start_NoneD)
  have "same_cache s0 (snd (setup_serial port s0))" by (rule setup_serial_cache)
  then have sc0: "same_cache s0 sa" unfolding a by simp
  have "same_cache sb (snd (conn_write_all start_sequence sb))" by (rule conn_write_all_cache)
  with w have wc: "same_cache sb sc" by auto
  have la: "length (cached_pwms sa) = 8"
    unfolding same_cacheD(1) [OF sc0] by (rule assms(2))
  have mv: "max_time_value sa = max_time_value s0"
    by (rule max_time_value_points [OF same_cacheD(4) [OF sc0]])
  have fa: "output_frequency sa = output_frequency s0" by (rule same_cacheD(3) [OF sc0])
  have sbd: "step_bound (max_time_value s0) sa = step_bound (max_time_value s0) s0"
    unfolding step_bound_def fa by (rule refl)
  have e1: "max_time sc = max_time sb" by (rule same_cacheD(2) [OF wc])
  have e2: "output_frequency sc = output_frequency sb" by (rule same_cacheD(3) [OF wc])
  have e3: "cached_pwms sc = cached_pwms sb" by (rule same_cacheD(1) [OF wc])
  have f1: "max_time s1 = max_time sc" and f2: "output_frequency s1 = output_frequency sc"
    and f3: "cached_pwms s1 = cached_pwms sc"
    unfolding fin by simp_all
  have "(0::nat) < 8" by simp
  from compute_pwms_ok [OF ok la this] obtain b where
    m: "max_time sb = Some (max_time_value sa)" and
    o: "output_frequency sb = output_frequency sa" and
    b: "step_bound (max_time_value sa) sa = Inr b" and b0: "0 \<le> b"
    by metis
  have lb: "length (cached_pwms sb) = 8"
    using compute_pwms_loop_fields [of lib "[0..<THRUSTER_COUNT]" "compute_max_time sa" None sb]
      ok la by (simp add: compute_pwms_def compute_max_time_def)
  have each: "length (snd x) = nat b
              \<and> (\<forall>y\<in>set (snd x). y = NaN \<or> (\<exists>v. y = Finite v))"
    if x: "x \<in> set (cached_pwms sb)" for x
  proof -
    from x lb obtain i where i: "i < 8" and xi: "x = cached_pwms sb ! i"
      by (metis in_set_conv_nth)
    from compute_pwms_ok [OF ok la i] obtain num where
      n: "step_bound (max_time_value sa) sa = Inr num" and
      l: "length (snd (cached_pwms sb ! i)) = nat num" and
      cl: "\<forall>y\<in>set (snd (cached_pwms sb ! i)).
             y = NaN \<or> (\<exists>v. y = Finite v \<and> 1100 \<le> v \<and> v \<le> 1900)"
      by metis
    from n b have "num = b" by simp
    with l cl show ?thesis unfolding xi by blast
  qed
  show thesis
  proof (rule that [of b])
    show "max_time s1 = Some (max_time_value s0)" unfolding f1 e1 m mv by (rule refl)
    show "output_frequency s1 = output_frequency s0" unfolding f2 e2 o fa by (rule refl)
    show "step_bound (max_time_value s0) s0 = Inr b" using b unfolding mv sbd .
    show "0 \<le> b" by (rule b0)
    show "length (cached_pwms s1) = 8" unfolding f3 e3 by (rule lb)
    show "\<forall>x\<in>set (cached_pwms s1). length (snd x) = nat b"
      unfolding f3 e3 using each by blast
    show "\<forall>x\<in>set (cached_pwms s1). \<forall>y\<in>set (snd x). y = NaN \<or> (\<exists>v. y = Finite v)"
      unfolding f3 e3 using each by blast
    show "timer_active s1" and "com_step s1 = Some 0" by (simp_all add: fin)
  qed
qed

lemma step_bound_frequency:
  "output_frequency s' = output_frequency s \<Longrightarrow> step_bound T s' = step_bound T s"
  by (simp add: step_bound_def)

text \<open>
  Claim C10, as amended. The end-of-run test of \<^verbatim>\<open>send_pwms\<close> takes its bound
  \<^verbatim>\<open>int(max_time * output_frequency) + 1\<close> from the frequency current at the tick,
  while the cached arrays keep the length \<^verbatim>\<open>int(max_time * f) + 1\<close> of the last start
  at frequency \<open>f\<close>. Take a start, any number of timeouts, \<^verbatim>\<open>change_frequency(f')\<close>
  and again any number of timeouts, and let \<open>b\<close> and \<open>b'\<close> be the bounds at \<open>f\<close> and
  \<open>f'\<close>. The cache and \<^verbatim>\<open>max_time\<close> are still those of the start and every cached
  array has \<open>b\<close> samples. On the next tick of the stream the new frequency decides:
  with the cursor above \<open>b'\<close> the tick performs the idle sequence, also when the
  cursor is still inside the cache; with the cursor within \<open>b'\<close> and inside the cache,
  on samples that are numbers, it sends the cached vector and advances the cursor.
  The bound exceeds the cached length exactly when \<open>b < b'\<close>.
\<close>

theorem change_frequency_mid_stream:
  assumes "serial_start port lib s0 = (None, s1)" and "length (cached_pwms s0) = 8"
    and "change_frequency f' (run_timer ports s1) = (None, s3)"
    and "s4 = run_timer ports' s3"
    and "step_bound (max_time_value s0) s0 = Inr b"
    and "step_bound (max_time_value s0) s4 = Inr b'"
    and "serial_status s4 = 1" and "serial_conn s4 = Some True"
    and "com_step s4 = Some c" and "0 \<le> c"
  shows "output_frequency s4 = f' \<and> cached_pwms s4 = cached_pwms s1
       \<and> max_time s4 = Some (max_time_value s0)
       \<and> map (\<lambda>ch. int (length (snd ch))) (cached_pwms s4) = replicate 8 b
       \<and> (b' < c \<longrightarrow>
            send_pwms p s4 =
              (None, s4\<lparr>timer_active := False, written := written s4 @ [idle_frame],
                        serial_conn := Some False, serial_status := 0\<rparr>))
       \<and> (c \<le> b' \<longrightarrow> c < b \<longrightarrow> list_all (\<lambda>ch. snd ch ! nat c \<noteq> NaN) (cached_pwms s4) \<longrightarrow>
            send_pwms p s4 =
              (None, s4\<lparr>written := written s4 @ [data_frame (get_pwms c s4)],
                        com_step := Some (c + 1)\<rparr>)
            \<and> map Inr (get_pwms c s4)
                = map (\<lambda>ch. int_of_float (snd ch ! nat c)) (cached_pwms s4))
       \<and> (list_all (\<lambda>ch. int (length (snd ch)) < b') (cached_pwms s4) \<longleftrightarrow> b < b')"
proof -
  let ?T = "max_time_value s0"
  let ?s2 = "run_timer ports s1"
  from serial_start_ok [OF assms(1,2)] obtain b0 where
    mt1: "max_time s1 = Some ?T" and
    sb0: "step_bound ?T s0 = Inr b0" and b0n: "0 \<le> b0" and
    l1: "length (cached_pwms s1) = 8" and
    len1: "\<forall>x\<in>set (cached_pwms s1). length (snd x) = nat b0" and
    num1: "\<forall>x\<in>set (cached_pwms s1). \<forall>y\<in>set (snd x). y = NaN \<or> (\<exists>v. y = Finite v)"
    by metis
  from sb0 assms(5) have bb: "b0 = b" by simp
  have r12: "same_cache s1 ?s2" by (rule run_timer_cache)
  have s3: "s3 = snd (change_frequency f' ?s2)" unfolding assms(3) by simp
  have cf: "cached_pwms s3 = cached_pwms ?s2" "max_time s3 = max_time ?s2"
    "output_frequency s3 = f'"
    unfolding s3 using change_frequency_fields [of f' ?s2] by simp_all
  have r34: "same_cache s3 s4" unfolding assms(4) by (rule run_timer_cache)
  have c1: "output_frequency s4 = f'"
    unfolding same_cacheD(3) [OF r34] by (rule cf(3))
  have c2: "cached_pwms s4 = cached_pwms s1"
    unfolding same_cacheD(1) [OF r34] cf(1) by (rule same_cacheD(1) [OF r12])
  have c3: "max_time s4 = Some ?T"
    unfolding same_cacheD(2) [OF r34] cf(2) same_cacheD(2) [OF r12] by (rule mt1)
  have l4: "length (cached_pwms s4) = 8" unfolding c2 by (rule l1)
  have len4: "\<forall>x\<in>set (cached_pwms s4). int (length (snd x)) = b"
    unfolding c2 using len1 b0n bb by simp
  have c4: "map (\<lambda>ch. int (length (snd ch))) (cached_pwms s4) = replicate 8 b"
  proof (rule nth_equalityI)
    show "length (map (\<lambda>ch. int (length (snd ch))) (cached_pwms s4)) = length (replicate 8 b)"
      using l4 by simp
  next
    fix i assume "i < length (map (\<lambda>ch. int (length (snd ch))) (cached_pwms s4))"
    then have i: "i < 8" using l4 by simp
    then have "cached_pwms s4 ! i \<in> set (cached_pwms s4)" using l4 by simp
    with len4 have "int (length (snd (cached_pwms s4 ! i))) = b" by blast
    then show "map (\<lambda>ch. int (length (snd ch))) (cached_pwms s4) ! i = replicate 8 b ! i"
      using i l4 by simp
  qed
  have c5: "b' < c \<longrightarrow>
            send_pwms p s4 =
              (None, s4\<lparr>timer_active := False, written := written s4 @ [idle_frame],
                        serial_conn := Some False, serial_status := 0\<rparr>)"
  proof
    assume "b' < c"
    then show "send_pwms p s4 =
              (None, s4\<lparr>timer_active := False, written := written s4 @ [idle_frame],
                        serial_conn := Some False, serial_status := 0\<rparr>)"
      by (rule send_pwms_idle [OF assms(7,8,9) c3 assms(6)])
  qed
  have c6: "c \<le> b' \<longrightarrow> c < b \<longrightarrow> list_all (\<lambda>ch. snd ch ! nat c \<noteq> NaN) (cached_pwms s4) \<longrightarrow>
            send_pwms p s4 =
              (None, s4\<lparr>written := written s4 @ [data_frame (get_pwms c s4)],
                        com_step := Some (c + 1)\<rparr>)
            \<and> map Inr (get_pwms c s4)
                = map (\<lambda>ch. int_of_float (snd ch ! nat c)) (cached_pwms s4)"
  proof (intro impI)
    assume cb': "c \<le> b'" and cb: "c < b"
      and nn: "list_all (\<lambda>ch. snd ch ! nat c \<noteq> NaN) (cached_pwms s4)"
    have smp: "\<forall>x\<in>set (cached_pwms s4).
                 nat c < length (snd x) \<and> (\<exists>v. snd x ! nat c = Finite v)"
    proof
      fix x assume x: "x \<in> set (cached_pwms s4)"
      with len4 have lx: "int (length (snd x)) = b" by blast
      with cb assms(10) have in_range: "nat c < length (snd x)" by linarith
      then have "snd x ! nat c \<in> set (snd x)" by simp
      moreover from x have "x \<in> set (cached_pwms s1)" unfolding c2 .
      ultimately have "snd x ! nat c = NaN \<or> (\<exists>v. snd x ! nat c = Finite v)"
        using num1 by blast
      moreover from nn x have "snd x ! nat c \<noteq> NaN" by (simp add: list_all_iff)
      ultimately show "nat c < length (snd x) \<and> (\<exists>v. snd x ! nat c = Finite v)"
        using in_range by blast
    qed
    show "send_pwms p s4 =
              (None, s4\<lparr>written := written s4 @ [data_frame (get_pwms c s4)],
                        com_step := Some (c + 1)\<rparr>)
            \<and> map Inr (get_pwms c s4)
                = map (\<lambda>ch. int_of_float (snd ch ! nat c)) (cached_pwms s4)"
      using send_pwms_data [OF assms(7,8,9) c3 assms(6) cb' assms(10) l4 smp, of p]
        get_pwms_all(1) [OF assms(10) l4 smp]
      by simp
  qed
  have c7: "list_all (\<lambda>ch. int (length (snd ch)) < b') (cached_pwms s4) \<longleftrightarrow> b < b'"
  proof
    assume a: "list_all (\<lambda>ch. int (length (snd ch)) < b') (cached_pwms s4)"
    from l4 have m: "cached_pwms s4 ! 0 \<in> set (cached_pwms s4)" by simp
    from a m have "int (length (snd (cached_pwms s4 ! 0))) < b'"
      unfolding list_all_iff by blast
    moreover from len4 m have "int (length (snd (cached_pwms s4 ! 0))) = b" by blast
    ultimately show "b < b'" by simp
  next
    assume "b < b'"
    with len4 show "list_all (\<lambda>ch. int (length (snd ch)) < b') (cached_pwms s4)"
      by (simp add: list_all_iff)
  qed
  from c1 c2 c3 c4 c5 c6 c7 show ?thesis by blast
qed

theorem change_frequency_mid_stream_witness:
  "serial_start PortOpens hold_lib five_hz_gui = (None, five_hz_started)
   \<and> length (cached_pwms five_hz_gui) = 8
   \<and> change_frequency 1 (run_timer [PortOpens] five_hz_started) = (None, lowered_gui)
   \<and> lowered_end_gui = run_timer [PortOpens, PortOpens] lowered_gui
   \<and> step_bound (max_time_value five_hz_gui) five_hz_gui = Inr 6
   \<and> step_bound (max_time_value five_hz_gui) lowered_end_gui = Inr 2
   \<and> serial_status lowered_end_gui = 1 \<and> serial_conn lowered_end_gui = Some True
   \<and> com_step lowered_end_gui = Some 3 \<and> (2::int) < 3
   \<and> output_frequency lowered_end_gui = 1
   \<and> map (\<lambda>ch. int (length (snd ch))) (cached_pwms lowered_end_gui) = replicate 8 6
   \<and> send_pwms PortOpens lowered_end_gui =
        (None, lowered_end_gui\<lparr>timer_active := False,
                 written := written lowered_end_gui @ [idle_frame],
                 serial_conn := Some False, serial_status := 0\<rparr>)
   \<and> serial_start PortOpens hold_lib two_second_gui = (None, two_second_started)
   \<and> length (cached_pwms two_second_gui) = 8
   \<and> change_frequency 5 (run_timer [PortOpens] two_second_started) = (None, raised_gui)
   \<and> raised_gui = run_timer [] raised_gui
   \<and> step_bound (max_time_value two_second_gui) two_second_gui = Inr 3
   \<and> step_bound (max_time_value two_second_gui) raised_gui = Inr 11
   \<and> serial_status raised_gui = 1 \<and> serial_conn raised_gui = Some True
   \<and> com_step raised_gui = Some 1 \<and> (1::int) \<le> 11 \<and> (1::int) < 3 \<and> (3::int) < 11
   \<and> list_all (\<lambda>ch. snd ch ! nat 1 \<noteq> NaN) (cached_pwms raised_gui)
   \<and> output_frequency raised_gui = 5
   \<and> map (\<lambda>ch. int (length (snd ch))) (cached_pwms raised_gui) = replicate 8 3
   \<and> send_pwms PortOpens raised_gui =
        (None, raised_gui\<lparr>written := written raised_gui @ [data_frame (get_pwms 1 raised_gui)],
                 com_step := Some (1 + 1)\<rparr>)
   \<and> list_all (\<lambda>ch. int (length (snd ch)) < 11) (cached_pwms raised_gui)"
proof -
  have a1: "serial_start PortOpens hold_lib five_hz_gui = (None, five_hz_started)"
    unfolding five_hz_started_eq by (rule five_hz_start)
  have a2: "length (cached_pwms five_hz_gui) = 8" by (simp add: five_hz_gui_def init_gui_def)
  have a3: "change_frequency 1 (run_timer [PortOpens] five_hz_started) = (None, lowered_gui)"
    unfolding lowered_gui_eq by (rule lowered_change)
  have a5: "step_bound (max_time_value five_hz_gui) five_hz_gui = Inr 6"
    unfolding max_time_value_five_hz by (rule step_bound_five_hz)
  have a6: "step_bound (max_time_value five_hz_gui) lowered_end_gui = Inr 2"
    unfolding max_time_value_five_hz by (rule step_bound_lowered_end)
  have a7: "serial_status lowered_end_gui = 1" by (simp add: lowered_end_gui_eq)
  have a8: "serial_conn lowered_end_gui = Some True" by (simp add: lowered_end_gui_eq)
  have a9: "com_step lowered_end_gui = Some 3" by (simp add: lowered_end_gui_eq)
  have a10: "(0::int) \<le> 3" by simp
  have a11: "(2::int) < 3" by simp
  note A = change_frequency_mid_stream [OF a1 a2 a3 lowered_end_gui_def a5 a6 a7 a8 a9 a10,
      of PortOpens]
  have b1: "serial_start PortOpens hold_lib two_second_gui = (None, two_second_started)"
    unfolding two_second_started_eq by (rule two_second_start)
  have b2: "length (cached_pwms two_second_gui) = 8"
    by (simp add: two_second_gui_def init_gui_def)
  have b3: "change_frequency 5 (run_timer [PortOpens] two_second_started) = (None, raised_gui)"
    unfolding raised_gui_eq by (rule raised_change)
  have b4: "raised_gui = run_timer [] raised_gui" by simp
  have b5: "step_bound (max_time_value two_second_gui) two_second_gui = Inr 3"
    unfolding max_time_value_two_second by (rule step_bound_two_second)
  have b6: "step_bound (max_time_value two_second_gui) raised_gui = Inr 11"
    unfolding max_time_value_two_second by (rule step_bound_raised)
  have b7: "serial_status raised_gui = 1" by (simp add: raised_gui_eq)
  have b8: "serial_conn raised_gui = Some True" by (simp add: raised_gui_eq)
  have b9: "com_step raised_gui = Some 1" by (simp add: raised_gui_eq)
  have b10: "(0::int) \<le> 1" by simp
  have b11: "(1::int) \<le> 11" "(1::int) < 3" "(3::int) < 11" by simp_all
  have b12: "list_all (\<lambda>ch. snd ch ! nat 1 \<noteq> NaN) (cached_pwms raised_gui)"
    by (simp add: raised_gui_eq list_all_iff)
  note B = change_frequency_mid_stream [OF b1 b2 b3 b4 b5 b6 b7 b8 b9 b10, of PortOpens]
  from A a11 have ca:
    "output_frequency lowered_end_gui = 1
     \<and> map (\<lambda>ch. int (length (snd ch))) (cached_pwms lowered_end_gui) = replicate 8 6
     \<and> send_pwms PortOpens lowered_end_gui =
        (None, lowered_end_gui\<lparr>timer_active := False,
                 written := written lowered_end_gui @ [idle_frame],
                 serial_conn := Some False, serial_status := 0\<rparr>)"
    by blast
  from B b11 b12 have cb:
    "output_frequency raised_gui = 5
     \<and> map (\<lambda>ch. int (length (snd ch))) (cached_pwms raised_gui) = replicate 8 3
     \<and> send_pwms PortOpens raised_gui =
        (None, raised_gui\<lparr>written := written raised_gui @ [data_frame (get_pwms 1 raised_gui)],
                 com_step := Some (1 + 1)\<rparr>)
     \<and> list_all (\<lambda>ch. int (length (snd ch)) < 11) (cached_pwms raised_gui)"
    by blast
  from a1 a2 a3 lowered_end_gui_def a5 a6 a7 a8 a9 a11 ca b1 b2 b3 b4 b5 b6 b7 b8 b9 b11 b12 cb
  show ?thesis by blast
qed

theorem change_frequency_mid_stream_counterexample:
  "output_frequency two_second_gui = 1 \<and> output_frequency raised_gui = 5
   \<and> timer_active raised_gui \<and> serial_status raised_gui = 1
   \<and> map (\<lambda>ch. length (snd ch)) (cached_pwms raised_gui) = replicate 8 3
   \<and> max_time raised_gui = Some 2 \<and> step_bound 2 raised_gui = Inr 11
   \<and> com_step raised_gui = Some 1
   \<and> length (written raised_gui) = 7 + 1
   \<and> raised_end_gui = run_timer (replicate 12 PortOpens) raised_gui
   \<and> com_step raised_end_gui = Some 3
   \<and> length (written raised_end_gui) = 7 + 3
   \<and> step_bound 2 raised_end_gui = Inr 11
   \<and> send_pwms PortOpens raised_end_gui = (Some ValueError, raised_end_gui)
   \<and> output_frequency eighth_second_gui = 1 \<and> output_frequency eighth_raised_gui = 5
   \<and> max_time eighth_raised_gui = Some (1 / 8)
   \<and> map (\<lambda>ch. length (snd ch)) (cached_pwms eighth_raised_gui) = replicate 8 1
   \<and> step_bound (1 / 8) eighth_raised_gui = Inr 1"
proof -
  have x: "([0, 1, 2], [Finite 1500, Finite 1500, Finite 1600])
             \<in> set (cached_pwms raised_end_gui)"
    by (simp add: raised_end_gui_eq)
  have e: "send_pwms PortOpens raised_end_gui = (Some ValueError, raised_end_gui)"
    by (rule send_pwms_short [where c = 3 and T = 2 and b = 11, OF _ _ step_bound_raised_end _ _ x])
       (simp_all add: raised_end_gui_eq py_index_def)
  have c1: "output_frequency two_second_gui = 1" by (simp add: two_second_gui_def)
  have c2: "output_frequency raised_gui = 5" "timer_active raised_gui"
    "serial_status raised_gui = 1" "max_time raised_gui = Some 2" "com_step raised_gui = Some 1"
    by (simp_all add: raised_gui_eq)
  have c3: "map (\<lambda>ch. length (snd ch)) (cached_pwms raised_gui) = replicate 8 3"
    by (simp add: raised_gui_eq)
  have c4: "length (written raised_gui) = 7 + 1"
    by (simp add: raised_gui_eq start_sequence_def)
  have c5: "com_step raised_end_gui = Some 3" by (simp add: raised_end_gui_eq)
  have c6: "length (written raised_end_gui) = 7 + 3"
    by (simp add: raised_end_gui_eq start_sequence_def)
  have c7: "output_frequency eighth_second_gui = 1" by (simp add: eighth_second_gui_def)
  have c8: "output_frequency eighth_raised_gui = 5" "max_time eighth_raised_gui = Some (1 / 8)"
    by (simp_all add: eighth_raised_gui_eq)
  have c9: "map (\<lambda>ch. length (snd ch)) (cached_pwms eighth_raised_gui) = replicate 8 1"
    by (simp add: eighth_raised_gui_eq)
  from c1 c2 c3 c4 raised_end_gui_def c5 c6 e c7 c8 c9
    step_bound_raised step_bound_raised_end step_bound_eighth_raised
  show ?thesis by blast
qed

section \<open>Runs in which only the timer acts\<close>

lemma serial_send_cases:
  assumes "serial_send v s = (r, s')"
  shows "(r \<noteq> None \<and> s' = s)
       \<or> (r = None \<and> length v = 8 \<and> (\<exists>d. s' = s\<lparr>written := written s @ [d]\<rparr>))"
  using assms
  by (auto simp: serial_send_def conn_write_def Let_def
           split: if_splits sum.splits option.splits bool.splits)

lemma get_pwms_full:
  assumes "length (get_pwms c s) = 8" and "length (cached_pwms s) = 8"
    and "x \<in> set (cached_pwms s)"
  shows "py_index (snd x) c \<noteq> None"
  using get_pwms_short [OF assms(2,3)] assms(1) by blast

lemma py_index_SomeD:
  assumes "py_index xs c \<noteq> None" and "0 \<le> c"
  shows "c < int (length xs)"
  using assms by (auto simp: py_index_def Let_def split: if_splits)

text \<open>
  The invariant of a run in which only the timer acts: the cursor is between 0 and
  the bound, and every cached array has exactly as many samples as the bound. A tick
  advances the cursor only when \<^verbatim>\<open>get_pwms\<close> finds a sample in every channel, that is
  below the bound; so after a start the cursor never passes the bound and the timer
  is never stopped by \<^verbatim>\<open>send_pwms\<close>.
\<close>

lemma tick_keeps_below:
  assumes "timer_active s" and "max_time s = Some T" and "step_bound T s = Inr b"
    and "com_step s = Some c" and "0 \<le> c" and "c \<le> b"
    and "length (cached_pwms s) = 8"
    and "\<forall>x\<in>set (cached_pwms s). length (snd x) = nat b"
  shows "timer_active (snd (send_pwms port s))
       \<and> max_time (snd (send_pwms port s)) = Some T
       \<and> step_bound T (snd (send_pwms port s)) = Inr b
       \<and> cached_pwms (snd (send_pwms port s)) = cached_pwms s
       \<and> (\<exists>c'. com_step (snd (send_pwms port s)) = Some c' \<and> 0 \<le> c' \<and> c' \<le> b)"
proof -
  obtain r s1 where ss: "serial_send (get_pwms c s) s = (r, s1)"
    by (cases "serial_send (get_pwms c s) s")
  have sp: "send_pwms port s = seq (r, s1) (\<lambda>s1. (None, s1\<lparr>com_step := Some (c + 1)\<rparr>))"
    using assms(2,3,4,6) ss by (simp add: send_pwms_def)
  from serial_send_cases [OF ss] show ?thesis
  proof
    assume "r \<noteq> None \<and> s1 = s"
    then obtain e where "r = Some e" and "s1 = s" by auto
    then have "snd (send_pwms port s) = s" unfolding sp by simp
    then show ?thesis using assms by simp
  next
    assume "r = None \<and> length (get_pwms c s) = 8 \<and> (\<exists>d. s1 = s\<lparr>written := written s @ [d]\<rparr>)"
    then obtain d where r: "r = None" and l: "length (get_pwms c s) = 8"
      and s1: "s1 = s\<lparr>written := written s @ [d]\<rparr>" by auto
    have st: "snd (send_pwms port s) = s\<lparr>written := written s @ [d], com_step := Some (c + 1)\<rparr>"
      unfolding sp r s1 by simp
    from assms(7) have m: "cached_pwms s ! 0 \<in> set (cached_pwms s)" by simp
    from py_index_SomeD [OF get_pwms_full [OF l assms(7) m] assms(5)]
    have "c < int (length (snd (cached_pwms s ! 0)))" .
    moreover from assms(8) m have "length (snd (cached_pwms s ! 0)) = nat b" by blast
    ultimately have "c + 1 \<le> b" using assms(5) by (auto split: if_splits)
    then show ?thesis
      unfolding st using assms(1,2,3,5) by (simp add: step_bound_def)
  qed
qed

lemma run_keeps_below:
  assumes "timer_active s" and "max_time s = Some T" and "step_bound T s = Inr b"
    and "com_step s = Some c" and "0 \<le> c" and "c \<le> b"
    and "length (cached_pwms s) = 8"
    and "\<forall>x\<in>set (cached_pwms s). length (snd x) = nat b"
  shows "timer_active (run_timer ports s)
       \<and> (\<exists>c'. com_step (run_timer ports s) = Some c' \<and> 0 \<le> c' \<and> c' \<le> b)"
  using assms
proof (induction ports arbitrary: s c)
  case Nil
  then show ?case by simp
next
  case (Cons p ports)
  let ?s' = "snd (send_pwms p s)"
  from tick_keeps_below [OF Cons.prems, of p] obtain c' where
    t: "timer_active ?s'" and m: "max_time ?s' = Some T" and sb: "step_bound T ?s' = Inr b"
    and ca: "cached_pwms ?s' = cached_pwms s"
    and c': "com_step ?s' = Some c'" "0 \<le> c'" "c' \<le> b"
    by blast
  have l: "length (cached_pwms ?s') = 8" unfolding ca by (rule Cons.prems(7))
  have e: "\<forall>x\<in>set (cached_pwms ?s'). length (snd x) = nat b"
    unfolding ca by (rule Cons.prems(8))
  from Cons.IH [OF t m sb c' l e] show ?case
    using Cons.prems(1) by (simp add: timeout_event_def)
qed

lemma plain_run_never_idles:
  assumes "serial_start port lib s0 = (None, s1)" and "length (cached_pwms s0) = 8"
  shows "timer_active (run_timer ports s1)"
proof -
  from serial_start_ok [OF assms] obtain b where
    mt: "max_time s1 = Some (max_time_value s0)" and
    f: "output_frequency s1 = output_frequency s0" and
    sb: "step_bound (max_time_value s0) s0 = Inr b" and b0: "0 \<le> b" and
    l: "length (cached_pwms s1) = 8" and
    len: "\<forall>x\<in>set (cached_pwms s1). length (snd x) = nat b" and
    t: "timer_active s1" and c: "com_step s1 = Some 0"
    by metis
  have sb1: "step_bound (max_time_value s0) s1 = Inr b"
    unfolding step_bound_frequency [OF f] by (rule sb)
  have z: "(0::int) \<le> 0" by simp
  from run_keeps_below [OF t mt sb1 c z b0 l len, of ports] show ?thesis by blast
qed

section \<open>Properties of sequence snapshots\<close>

lemma json_load_first_empty:
  assumes "thruster_data data = Some td" and "td (str 0) = Some [] \<or> td (str 0) = None"
    and "length (points s) = 8"
  shows "json_load_sequence lib data s =
           s\<lparr>selected_interpolation :=
                (case interpolation_method data of None \<Rightarrow> ''linear'' | Some m \<Rightarrow> m),
             output_frequency := (case frequency data of None \<Rightarrow> 20 | Some f \<Rightarrow> f),
             points := (points s)[0 := []]\<rparr>"
proof -
  have u: "[0..<THRUSTER_COUNT] = 0 # [1..<8]" by (simp add: THRUSTER_COUNT_def upt_conv_Cons)
  show ?thesis
    unfolding json_load_sequence_def u using assms
    by (auto simp: interpolate_thruster_curve_def)
qed

lemma json_save_first:
  "thruster_data (json_save_sequence s) = Some td \<Longrightarrow> td (str 0) = Some (points s ! 0)"
  by (auto simp: json_save_sequence_def THRUSTER_COUNT_def upt_conv_Cons)

text \<open>
  Claim C9. Saving a sequence and loading it back is to restore every channel's
  waypoints, the interpolation and the frequency. \<^verbatim>\<open>json_load_sequence\<close> restores the
  interpolation and the frequency, but its loop calls \<^verbatim>\<open>interpolate_thruster_curve\<close>
  on each channel, which raises on an empty one, and the \<^verbatim>\<open>except\<close> ends the loop
  there: a sequence with channel 0 empty and waypoints on channel 1, loaded into a
  fresh window, leaves channel 1 empty, whatever the interpolation library does.
\<close>

theorem json_round_trip_empty_channel:
  "points second_only_gui ! 1 = [(0, 1500), (1, 1600)]
   \<and> points (json_load_sequence lib (json_save_sequence second_only_gui) init_gui) ! 1 = []
   \<and> selected_interpolation (json_load_sequence lib (json_save_sequence second_only_gui) init_gui) = ''constant''
   \<and> output_frequency (json_load_sequence lib (json_save_sequence second_only_gui) init_gui) = 50"
proof -
  obtain td where td: "thruster_data (json_save_sequence second_only_gui) = Some td"
    by (simp add: json_save_sequence_def)
  from json_save_first [OF td] have "td (str 0) = Some []" by (simp add: second_only_gui_def)
  then have "td (str 0) = Some [] \<or> td (str 0) = None" by simp
  moreover have "length (points init_gui) = 8" by (simp add: init_gui_def THRUSTER_COUNT_def)
  ultimately have "json_load_sequence lib (json_save_sequence second_only_gui) init_gui =
           init_gui\<lparr>selected_interpolation :=
                (case interpolation_method (json_save_sequence second_only_gui) of
                   None \<Rightarrow> ''linear'' | Some m \<Rightarrow> m),
             output_frequency :=
                (case frequency (json_save_sequence second_only_gui) of None \<Rightarrow> 20 | Some f \<Rightarrow> f),
             points := (points init_gui)[0 := []]\<rparr>"
    by (rule json_load_first_empty [OF td])
  then show ?thesis
    by (simp add: second_only_gui_def json_save_sequence_def init_gui_def THRUSTER_COUNT_def)
qed

end
